theory Spec2Isabelle
  imports Main "HOL-Library.Word"
begin

unbundle bit_operations_syntax

chapter \<open>The model of \<open>chroot/run_linux.go\<close>\<close>

text \<open>
  System calls return an error number or succeed. \<open>errors.Is(err, os.ErrNotExist)\<close> holds
  of \<open>ENOENT\<close>, \<open>os.IsPermission\<close> of \<open>EACCES\<close> and \<open>EPERM\<close>.
\<close>

datatype errno = ENOENT | EBUSY | EAGAIN | EACCES | EPERM | EINVAL | EIO

definition isNotExist :: "errno \<Rightarrow> bool" where
  "isNotExist e = (e = ENOENT)"

definition isPermission :: "errno \<Rightarrow> bool" where
  "isPermission e = (e = EACCES \<or> e = EPERM)"

section \<open>Resource limits: \<open>rlimitsMap\<close> and \<open>parseRlimits\<close>\<close>

text \<open>
  \<open>specs.POSIXRlimit\<close> (type name, hard and soft limit, both \<open>uint64\<close>) and
  \<open>unix.Rlimit\<close> (\<open>Cur\<close>, \<open>Max\<close>).
\<close>

record posix_rlimit =
  rl_Type :: string
  rl_Hard :: "64 word"
  rl_Soft :: "64 word"

record rlimit =
  Cur :: "64 word"
  Max :: "64 word"

text \<open>
  The table of \<open>run_linux.go\<close>, lines 32 to 49. The keys are the source's; the values
  are the constants \<open>unix.RLIMIT_*\<close> of \<open>golang.org/x/sys/unix\<close> on Linux.
\<close>

definition rlimitsMap :: "(string \<times> int) list" where
  "rlimitsMap =
    [(''RLIMIT_AS'', 9),
     (''RLIMIT_CORE'', 4),
     (''RLIMIT_CPU'', 0),
     (''RLIMIT_DATA'', 2),
     (''RLIMIT_FSIZE'', 1),
     (''RLIMIT_LOCKS'', 10),
     (''RLIMIT_MEMLOCK'', 8),
     (''RLIMIT_MSGQUEUE'', 12),
     (''RLIMIT_NICE'', 13),
     (''RLIMIT_NOFILE'', 7),
     (''RLIMIT_NPROC'', 6),
     (''RLIMIT_RSS'', 5),
     (''RLIMIT_RTPRIO'', 14),
     (''RLIMIT_RTTIME'', 15),
     (''RLIMIT_SIGPENDING'', 11),
     (''RLIMIT_STACK'', 3)]"

datatype rlimit_error =
    ErrParsingLimitType string
  | ErrReadingLimit int errno
  | ErrSettingLimit int errno

text \<open>
  The loop of \<open>parseRlimits\<close> (lines 431 to 437) over \<open>spec.Process.Rlimits\<close>, with the
  map \<open>parsed\<close> as accumulator. \<open>strings.ToUpper\<close> belongs to Go's library and is a
  parameter of the model.
\<close>

fun parseRlimits_loop ::
  "(string \<Rightarrow> string) \<Rightarrow> posix_rlimit list \<Rightarrow> (int \<rightharpoonup> rlimit) \<Rightarrow> rlimit_error + (int \<rightharpoonup> rlimit)"
where
  "parseRlimits_loop ToUpper [] parsed = Inr parsed"
| "parseRlimits_loop ToUpper (limit # rest) parsed =
     (case map_of rlimitsMap (ToUpper (rl_Type limit)) of
        None \<Rightarrow> Inl (ErrParsingLimitType (rl_Type limit))
      | Some resource \<Rightarrow>
          parseRlimits_loop ToUpper rest
            (parsed(resource \<mapsto> \<lparr>Cur = rl_Soft limit, Max = rl_Hard limit\<rparr>)))"

text \<open>
  \<open>parseRlimits\<close>: the argument is \<open>spec.Process\<close> reduced to its \<open>Rlimits\<close> field,
  \<open>None\<close> when \<open>spec.Process\<close> is nil. Go's nil map, returned in that case, reads as
  the empty map.
\<close>

definition parseRlimits ::
  "(string \<Rightarrow> string) \<Rightarrow> posix_rlimit list option \<Rightarrow> rlimit_error + (int \<rightharpoonup> rlimit)"
where
  "parseRlimits ToUpper process =
     (case process of
        None \<Rightarrow> Inr Map.empty
      | Some limits \<Rightarrow> parseRlimits_loop ToUpper limits Map.empty)"

text \<open>\<open>strings.ToUpper\<close> on ASCII bytes: \<open>a\<close> to \<open>z\<close> become \<open>A\<close> to \<open>Z\<close>.\<close>

definition asciiUpperChar :: "char \<Rightarrow> char" where
  "asciiUpperChar c =
     (case map_of (zip ''abcdefghijklmnopqrstuvwxyz'' ''ABCDEFGHIJKLMNOPQRSTUVWXYZ'') c of
        Some u \<Rightarrow> u
      | None \<Rightarrow> c)"

definition asciiToUpper :: "string \<Rightarrow> string" where
  "asciiToUpper s = map asciiUpperChar s"

section \<open>Capabilities: \<open>setCapabilities\<close>\<close>

text \<open>
  \<open>capability.CapType\<close> and \<open>capability.Cap\<close> (a Go \<open>int\<close>) of the library
  \<open>gocapability\<close>. A \<open>capability.Capabilities\<close> object holds one set of capabilities
  per type; \<open>Set\<close> adds a capability to a set and \<open>Get\<close> tests membership.
\<close>

datatype CapType = EFFECTIVE | PERMITTED | INHERITABLE | BOUNDING | AMBIENT

type_synonym Cap = int

type_synonym capabilities = "CapType \<Rightarrow> Cap set"

definition caps_Set :: "capabilities \<Rightarrow> CapType \<Rightarrow> Cap \<Rightarrow> capabilities" where
  "caps_Set caps capType cap = caps(capType := insert cap (caps capType))"

definition caps_Get :: "capabilities \<Rightarrow> CapType \<Rightarrow> Cap \<Rightarrow> bool" where
  "caps_Get caps capType cap = (cap \<in> caps capType)"

text \<open>
  What the libraries provide and the source only calls: \<open>capability.List()\<close>, the
  \<open>String()\<close> method of a capability, and \<open>strings.EqualFold\<close>.
\<close>

record caplib =
  cap_List :: "Cap list"
  cap_String :: "Cap \<Rightarrow> string"
  EqualFold :: "string \<Rightarrow> string \<Rightarrow> bool"

text \<open>\<open>specs.LinuxCapabilities\<close>: five lists of capability names.\<close>

record linux_capabilities =
  Bounding :: "string list"
  Effective :: "string list"
  Inheritable :: "string list"
  Permitted :: "string list"
  Ambient :: "string list"

datatype cap_error =
    ErrReadingCapabilities errno
  | ErrLoadingCapabilities errno
  | ErrMappingCapability string
  | ErrSettingCapabilities errno
  | PanicNilCapabilities

definition noCap :: Cap where
  "noCap = - 1"

text \<open>The map literal \<open>capMap\<close> of lines 379 to 385.\<close>

definition capMap :: "linux_capabilities \<Rightarrow> CapType \<Rightarrow> string list" where
  "capMap c capType =
     (case capType of
        BOUNDING \<Rightarrow> Bounding c
      | EFFECTIVE \<Rightarrow> Effective c
      | INHERITABLE \<Rightarrow> []
      | PERMITTED \<Rightarrow> Permitted c
      | AMBIENT \<Rightarrow> Ambient c)"

text \<open>
  The search of lines 390 to 396 and 403 to 409: the first known capability whose name,
  prefixed with \<open>CAP_\<close>, folds to the requested name; \<open>noCap\<close> when there is none.
\<close>

fun findCap :: "caplib \<Rightarrow> Cap list \<Rightarrow> string \<Rightarrow> Cap" where
  "findCap lib [] capToSet = noCap"
| "findCap lib (c # knownCaps) capToSet =
     (if EqualFold lib (''CAP_'' @ cap_String lib c) capToSet then c
      else findCap lib knownCaps capToSet)"

text \<open>The loop of lines 389 to 401 over the names the specification lists for one type.\<close>

fun setSpecCaps :: "caplib \<Rightarrow> CapType \<Rightarrow> string list \<Rightarrow> capabilities \<Rightarrow> cap_error + capabilities" where
  "setSpecCaps lib capType [] caps = Inr caps"
| "setSpecCaps lib capType (capToSet # capList) caps =
     (let cap = findCap lib (cap_List lib) capToSet in
      if cap = noCap then Inl (ErrMappingCapability capToSet)
      else setSpecCaps lib capType capList (caps_Set caps capType cap))"

text \<open>The loop of lines 402 to 416 over \<open>keepCaps\<close>, for one type.\<close>

fun setKeepCaps ::
  "caplib \<Rightarrow> capabilities \<Rightarrow> CapType \<Rightarrow> string list \<Rightarrow> capabilities \<Rightarrow> cap_error + capabilities"
where
  "setKeepCaps lib currentCaps capType [] caps = Inr caps"
| "setKeepCaps lib currentCaps capType (capToSet # keepCaps) caps =
     (let cap = findCap lib (cap_List lib) capToSet in
      if cap = noCap then Inl (ErrMappingCapability capToSet)
      else setKeepCaps lib currentCaps capType keepCaps
             (if caps_Get currentCaps capType cap then caps_Set caps capType cap else caps))"

text \<open>
  The outer loop of lines 388 to 417. Go leaves the iteration order of a map
  unspecified: \<open>types\<close> is the order in which this run visits the keys of \<open>capMap\<close>.
\<close>

fun setCapTypes ::
  "caplib \<Rightarrow> capabilities \<Rightarrow> linux_capabilities \<Rightarrow> string list \<Rightarrow> CapType list \<Rightarrow> capabilities
     \<Rightarrow> cap_error + capabilities"
where
  "setCapTypes lib currentCaps c keepCaps [] caps = Inr caps"
| "setCapTypes lib currentCaps c keepCaps (capType # types) caps =
     (case setSpecCaps lib capType (capMap c capType) caps of
        Inl e \<Rightarrow> Inl e
      | Inr caps1 \<Rightarrow>
          (case setKeepCaps lib currentCaps capType keepCaps caps1 of
             Inl e \<Rightarrow> Inl e
           | Inr caps2 \<Rightarrow> setCapTypes lib currentCaps c keepCaps types caps2))"

text \<open>
  The results of the calls into the capability library: the two \<open>NewPid2(0)\<close>, the
  \<open>Load\<close> of the current process's capabilities, and \<open>Apply\<close> on the sets computed.
  \<open>NewPid2\<close> returns an object with every set empty.
\<close>

record cap_calls =
  NewPid2_current :: "errno option"
  Load_current :: "errno + capabilities"
  NewPid2_caps :: "errno option"
  Apply_caps :: "capabilities \<Rightarrow> errno option"

text \<open>
  \<open>setCapabilities\<close> (lines 367 to 422). The argument \<open>capabilities\<close> is
  \<open>spec.Process.Capabilities\<close>, a pointer: reading a field of nil panics. The
  result pairs the error returned (\<open>None\<close> for nil) with the sets handed to \<open>Apply\<close>, when
  the function gets that far.
\<close>

definition setCapabilities ::
  "caplib \<Rightarrow> cap_calls \<Rightarrow> CapType list \<Rightarrow> linux_capabilities option \<Rightarrow> string list
     \<Rightarrow> cap_error option \<times> capabilities option"
where
  "setCapabilities lib calls types capabilities keepCaps =
     (case NewPid2_current calls of
        Some e \<Rightarrow> (Some (ErrReadingCapabilities e), None)
      | None \<Rightarrow>
     (case Load_current calls of
        Inl e \<Rightarrow> (Some (ErrLoadingCapabilities e), None)
      | Inr currentCaps \<Rightarrow>
     (case NewPid2_caps calls of
        Some e \<Rightarrow> (Some (ErrReadingCapabilities e), None)
      | None \<Rightarrow>
     (case capabilities of
        None \<Rightarrow> (Some PanicNilCapabilities, None)
      | Some c \<Rightarrow>
     (case setCapTypes lib currentCaps c keepCaps types (\<lambda>_. {}) of
        Inl e \<Rightarrow> (Some e, None)
      | Inr caps \<Rightarrow>
     (case Apply_caps calls caps of
        Some e \<Rightarrow> (Some (ErrSettingCapabilities e), Some caps)
      | None \<Rightarrow> (None, Some caps)))))))"

text \<open>
  An instance of the library for evaluation: \<open>strings.EqualFold\<close> on ASCII strings, and
  a few of the capabilities of \<open>capability.List()\<close> with their numbers and names.
\<close>

definition asciiEqualFold :: "string \<Rightarrow> string \<Rightarrow> bool" where
  "asciiEqualFold s t = (asciiToUpper s = asciiToUpper t)"

definition demoCapNames :: "(Cap \<times> string) list" where
  "demoCapNames =
     [(0, ''chown''), (6, ''setgid''), (7, ''setuid''), (10, ''net_bind_service''),
      (21, ''sys_admin'')]"

definition demoCapLib :: caplib where
  "demoCapLib =
     \<lparr>cap_List = map fst demoCapNames,
      cap_String = (\<lambda>c. case map_of demoCapNames c of Some n \<Rightarrow> n | None \<Rightarrow> ''unknown''),
      EqualFold = asciiEqualFold\<rparr>"

definition demoCapCalls :: "capabilities \<Rightarrow> cap_calls" where
  "demoCapCalls currentCaps =
     \<lparr>NewPid2_current = None, Load_current = Inr currentCaps, NewPid2_caps = None,
      Apply_caps = (\<lambda>caps. None)\<rparr>"

definition demoNoCaps :: capabilities where
  "demoNoCaps = (\<lambda>capType. {})"

definition demoCapabilities :: linux_capabilities where
  "demoCapabilities =
     \<lparr>Bounding = [''CAP_NET_BIND_SERVICE''], Effective = [], Inheritable = [''CAP_CHOWN''],
      Permitted = [], Ambient = []\<rparr>"

text \<open>The set of one type among the sets handed to \<open>Apply\<close>, when the call was reached.\<close>

definition appliedSet :: "cap_error option \<times> capabilities option \<Rightarrow> CapType \<Rightarrow> Cap set option" where
  "appliedSet r capType = (case snd r of None \<Rightarrow> None | Some caps \<Rightarrow> Some (caps capType))"

section \<open>The operating system\<close>

text \<open>
  \<open>unix.Stat_t\<close> with the fields the source reads, and \<open>os.FileInfo\<close> with the three
  mode tests the source makes and the \<open>Stat_t\<close> behind \<open>Sys()\<close>.
\<close>

record stat_t =
  st_Dev :: "64 word"
  st_Ino :: "64 word"
  st_Mode :: "32 word"
  st_Uid :: "32 word"
  st_Gid :: "32 word"
  st_Rdev :: "64 word"

record file_info =
  fi_IsDir :: bool
  fi_ModeSymlink :: bool
  fi_ModeCharDevice :: bool
  fi_Sys :: stat_t

text \<open>
  Opening a directory and reading its names (\<open>os.Open\<close>, \<open>Readdirnames(0)\<close>,
  \<open>Close\<close>): the open fails, or the read fails, or the names are returned.
\<close>

datatype readdir_result = OpenFailed errno | ReadFailed errno | Names "string list"

text \<open>
  The system and library calls of the source, as functions of a state of the world
  \<open>'w\<close>. A call that only inspects returns its result; a call that acts returns its
  error (\<open>None\<close> for nil) and the next state. \<open>unix_Mount\<close> takes source, target,
  file system type, flags and data; \<open>mount_Mount\<close> (of \<open>containers/storage\<close>) takes
  device, target, type and an option string.
\<close>

record 'w os =
  unix_Stat :: "string \<Rightarrow> 'w \<Rightarrow> errno + stat_t"
  unix_Chdir :: "string \<Rightarrow> 'w \<Rightarrow> errno option \<times> 'w"
  unix_Chroot :: "string \<Rightarrow> 'w \<Rightarrow> errno option \<times> 'w"
  unix_Statfs :: "string \<Rightarrow> 'w \<Rightarrow> errno + 64 word"
  unix_Mount :: "string \<Rightarrow> string \<Rightarrow> string \<Rightarrow> 64 word \<Rightarrow> string \<Rightarrow> 'w \<Rightarrow> errno option \<times> 'w"
  unix_Unmount :: "string \<Rightarrow> int \<Rightarrow> 'w \<Rightarrow> errno option \<times> 'w"
  unix_Getrlimit :: "int \<Rightarrow> 'w \<Rightarrow> errno + rlimit"
  unix_Setrlimit :: "int \<Rightarrow> rlimit \<Rightarrow> 'w \<Rightarrow> errno option \<times> 'w"
  mount_Mount :: "string \<Rightarrow> string \<Rightarrow> string \<Rightarrow> string \<Rightarrow> 'w \<Rightarrow> errno option \<times> 'w"
  os_Stat :: "string \<Rightarrow> 'w \<Rightarrow> errno + file_info"
  os_Lstat :: "string \<Rightarrow> 'w \<Rightarrow> errno + file_info"
  os_Mkdir :: "string \<Rightarrow> 'w \<Rightarrow> errno option \<times> 'w"
  os_MkdirAll :: "string \<Rightarrow> 'w \<Rightarrow> errno option \<times> 'w"
  os_OpenFile_create :: "string \<Rightarrow> 'w \<Rightarrow> errno option \<times> 'w"
  os_Readdirnames :: "string \<Rightarrow> 'w \<Rightarrow> readdir_result"
  copier_Eval :: "string \<Rightarrow> string \<Rightarrow> 'w \<Rightarrow> errno + string"
  filepath_EvalSymlinks :: "string \<Rightarrow> 'w \<Rightarrow> errno + string"
  filepath_Join :: "string \<Rightarrow> string \<Rightarrow> string"
  filepath_Dir :: "string \<Rightarrow> string"

text \<open>The constants of \<open>golang.org/x/sys/unix\<close> on Linux that the source names.\<close>

definition MS_RDONLY :: "64 word" where "MS_RDONLY = 0x1"
definition MS_NOSUID :: "64 word" where "MS_NOSUID = 0x2"
definition MS_NODEV :: "64 word" where "MS_NODEV = 0x4"
definition MS_NOEXEC :: "64 word" where "MS_NOEXEC = 0x8"
definition MS_REMOUNT :: "64 word" where "MS_REMOUNT = 0x20"
definition MS_BIND :: "64 word" where "MS_BIND = 0x1000"
definition MS_REC :: "64 word" where "MS_REC = 0x4000"
definition MS_PRIVATE :: "64 word" where "MS_PRIVATE = 0x40000"
definition ST_RDONLY :: "64 word" where "ST_RDONLY = 0x1"
definition ST_NOSUID :: "64 word" where "ST_NOSUID = 0x2"
definition ST_NODEV :: "64 word" where "ST_NODEV = 0x4"
definition ST_NOEXEC :: "64 word" where "ST_NOEXEC = 0x8"
definition MNT_DETACH :: int where "MNT_DETACH = 0x2"
definition S_IROTH :: "32 word" where "S_IROTH = 0x4"
definition S_IXOTH :: "32 word" where "S_IXOTH = 0x1"
definition S_IRGRP :: "32 word" where "S_IRGRP = 0x20"
definition S_IXGRP :: "32 word" where "S_IXGRP = 0x8"
definition S_IRUSR :: "32 word" where "S_IRUSR = 0x100"
definition S_IXUSR :: "32 word" where "S_IXUSR = 0x40"

section \<open>Resource limits: \<open>setRlimits\<close>\<close>

text \<open>
  The loop of \<open>setRlimits\<close> (lines 448 to 464) over the parsed map. Go leaves the order
  of the iteration unspecified: \<open>resources\<close> is the order in which this run visits the
  keys of the map. The result carries the \<open>unix.Setrlimit\<close> calls made, in order.
\<close>

fun setRlimits_loop ::
  "'w os \<Rightarrow> (int \<rightharpoonup> rlimit) \<Rightarrow> int list \<Rightarrow> bool \<Rightarrow> bool \<Rightarrow> 'w
     \<Rightarrow> rlimit_error option \<times> 'w \<times> (int \<times> rlimit) list"
where
  "setRlimits_loop os limits [] onlyLower onlyRaise w = (None, w, [])"
| "setRlimits_loop os limits (resource # resources) onlyLower onlyRaise w =
     (case limits resource of
        None \<Rightarrow> setRlimits_loop os limits resources onlyLower onlyRaise w
      | Some desired \<Rightarrow>
          (case unix_Getrlimit os resource w of
             Inl e \<Rightarrow> (Some (ErrReadingLimit resource e), w, [])
           | Inr current \<Rightarrow>
               if Max desired > Max current \<and> onlyLower
               then setRlimits_loop os limits resources onlyLower onlyRaise w
               else if Max desired < Max current \<and> onlyRaise
               then setRlimits_loop os limits resources onlyLower onlyRaise w
               else
                 (case unix_Setrlimit os resource desired w of
                    (Some e, w1) \<Rightarrow> (Some (ErrSettingLimit resource e), w1, [(resource, desired)])
                  | (None, w1) \<Rightarrow>
                      (case setRlimits_loop os limits resources onlyLower onlyRaise w1 of
                         (r, w2, calls) \<Rightarrow> (r, w2, (resource, desired) # calls)))))"

text \<open>\<open>setRlimits\<close> (lines 443 to 466).\<close>

definition setRlimits ::
  "(string \<Rightarrow> string) \<Rightarrow> 'w os \<Rightarrow> posix_rlimit list option \<Rightarrow> int list \<Rightarrow> bool \<Rightarrow> bool \<Rightarrow> 'w
     \<Rightarrow> rlimit_error option \<times> 'w \<times> (int \<times> rlimit) list"
where
  "setRlimits ToUpper os process resources onlyLower onlyRaise w =
     (case parseRlimits ToUpper process of
        Inl e \<Rightarrow> (Some e, w, [])
      | Inr limits \<Rightarrow> setRlimits_loop os limits resources onlyLower onlyRaise w)"

section \<open>Entering the chroot: \<open>runUsingChrootExecMain\<close>, lines 145 to 165\<close>

text \<open>
  \<open>os.Exit\<close> after a line on standard error: the constant text of the line and the
  exit status.
\<close>

datatype fatal = Fatal string int

text \<open>
  The chroot entry of \<open>runUsingChrootExecMain\<close>, from the first \<open>unix.Stat\<close> to the
  comparison of line 162. \<open>rootPath\<close> is \<open>options.Spec.Root.Path\<close>. \<open>later\<close> stands for
  everything the function does from line 166 on, run in the state that the chroot
  entry leaves: it is reached only through the last branch.
\<close>

definition chrootEntry :: "'w os \<Rightarrow> string \<Rightarrow> ('w \<Rightarrow> 'r) \<Rightarrow> 'w \<Rightarrow> fatal + 'r" where
  "chrootEntry os rootPath later w =
     (case unix_Stat os rootPath w of
        Inl e \<Rightarrow> Inl (Fatal ''error stat()ing intended root directory'' 1)
      | Inr oldst \<Rightarrow>
     (case unix_Chdir os rootPath w of
        (Some e, w1) \<Rightarrow> Inl (Fatal ''error chdir()ing to intended root directory'' 1)
      | (None, w1) \<Rightarrow>
     (case unix_Chroot os rootPath w1 of
        (Some e, w2) \<Rightarrow> Inl (Fatal ''error chroot()ing into directory'' 1)
      | (None, w2) \<Rightarrow>
     (case unix_Stat os ''/'' w2 of
        Inl e \<Rightarrow> Inl (Fatal ''error stat()ing current root directory'' 1)
      | Inr newst \<Rightarrow>
          if st_Dev oldst \<noteq> st_Dev newst \<or> st_Ino oldst \<noteq> st_Ino newst
          then Inl (Fatal ''unknown error chroot()ing into directory'' 1)
          else Inr (later w2)))))"

section \<open>The cleanup handle: \<open>undoBinds\<close>, lines 501 to 517\<close>

text \<open>
  An error made by \<open>setupChrootBindMounts\<close> with \<open>fmt.Errorf\<close>: the constant text of its
  message and the error it wraps (none at line 785, which wraps a nil error). The
  result variable \<open>err\<close> of \<open>setupChrootBindMounts\<close> holds such an error, or the error
  number of a system call that the cleanup handle stored there.
\<close>

datatype setup_error = SetupError string "errno option"

datatype go_error = Wrapped setup_error | Sys errno

text \<open>What the handle does, in order: an unmount with its result, or a sleep in milliseconds.\<close>

datatype undo_event = Unmounted "errno option" | Slept nat

text \<open>
  The retry loop of lines 504 to 508, with the events it adds to those before it.
\<close>

function undoBinds_retry ::
  "'w os \<Rightarrow> string \<Rightarrow> errno option \<Rightarrow> nat \<Rightarrow> 'w \<Rightarrow> undo_event list
     \<Rightarrow> errno option \<times> nat \<times> 'w \<times> undo_event list"
where
  "undoBinds_retry os rootPath err2 retries w events =
     (if (err2 = Some EBUSY \<or> err2 = Some EAGAIN) \<and> retries < 50
      then undoBinds_retry os rootPath
             (fst (unix_Unmount os rootPath MNT_DETACH w)) (retries + 1)
             (snd (unix_Unmount os rootPath MNT_DETACH w))
             (events @ [Slept 50, Unmounted (fst (unix_Unmount os rootPath MNT_DETACH w))])
      else (err2, retries, w, events))"
  by pat_completeness auto
termination
  by (relation "measure (\<lambda>(os, rootPath, err2, retries, w, events). 50 - retries)") auto

text \<open>
  \<open>undoBinds\<close>. The closure reads and writes the result variable \<open>err\<close> of
  \<open>setupChrootBindMounts\<close>: the argument \<open>err\<close> is its value when the handle is called
  (what the setup returned, or what an earlier call of the handle stored). The result
  is the error returned (which is also the new value of that variable), the state of
  the world, and the events in order.
\<close>

definition undoBinds ::
  "'w os \<Rightarrow> string \<Rightarrow> go_error option \<Rightarrow> 'w \<Rightarrow> go_error option \<times> 'w \<times> undo_event list"
where
  "undoBinds os rootPath err w =
     (case unix_Unmount os rootPath MNT_DETACH w of
        (None, w1) \<Rightarrow> (err, w1, [Unmounted None])
      | (Some e, w1) \<Rightarrow>
          (case undoBinds_retry os rootPath (Some e) 0 w1 [Unmounted (Some e)] of
             (None, retries, w2, events) \<Rightarrow> (err, w2, events)
           | (Some e2, retries, w2, events) \<Rightarrow>
               (if err = None then Some (Sys e2) else err, w2, events)))"

text \<open>
  The shape of a run of the handle: the results for which the loop goes on, and the
  events of the retries whose unmount calls return \<open>rs\<close>.
\<close>

definition busyResult :: "errno option \<Rightarrow> bool" where
  "busyResult r = (r = Some EBUSY \<or> r = Some EAGAIN)"

definition retryEvents :: "errno option list \<Rightarrow> undo_event list" where
  "retryEvents rs = concat (map (\<lambda>r. [Slept 50, Unmounted r]) rs)"

section \<open>Worlds for evaluation\<close>

text \<open>
  A system in which every inspection of the file system fails, every action succeeds
  without effect, and every resource limit is 1024 (soft) and 4096 (hard).
\<close>

definition nullOs :: "'w os" where
  "nullOs =
     \<lparr>unix_Stat = (\<lambda>p w. Inl ENOENT),
      unix_Chdir = (\<lambda>p w. (None, w)),
      unix_Chroot = (\<lambda>p w. (None, w)),
      unix_Statfs = (\<lambda>p w. Inl ENOENT),
      unix_Mount = (\<lambda>s t f fl d w. (None, w)),
      unix_Unmount = (\<lambda>p f w. (None, w)),
      unix_Getrlimit = (\<lambda>resource w. Inr \<lparr>Cur = 1024, Max = 4096\<rparr>),
      unix_Setrlimit = (\<lambda>resource lim w. (None, w)),
      mount_Mount = (\<lambda>s t f opts w. (None, w)),
      os_Stat = (\<lambda>p w. Inl ENOENT),
      os_Lstat = (\<lambda>p w. Inl ENOENT),
      os_Mkdir = (\<lambda>p w. (None, w)),
      os_MkdirAll = (\<lambda>p w. (None, w)),
      os_OpenFile_create = (\<lambda>p w. (None, w)),
      os_Readdirnames = (\<lambda>p w. OpenFailed ENOENT),
      copier_Eval = (\<lambda>r p w. Inl ENOENT),
      filepath_EvalSymlinks = (\<lambda>p w. Inl ENOENT),
      filepath_Join = (\<lambda>a b. a @ b),
      filepath_Dir = (\<lambda>p. p)\<rparr>"

text \<open>
  The world is a script of the results of the coming unmount calls, read in order
  (success when the script is over).
\<close>

definition scriptOs :: "(errno option list) os" where
  "scriptOs =
     nullOs\<lparr>unix_Unmount := (\<lambda>p f w. case w of [] \<Rightarrow> (None, []) | r # rs \<Rightarrow> (r, rs))\<rparr>"

text \<open>
  The world says whether the process has entered the chroot. Before it, \<open>/rootfs\<close> is
  the directory with inode 100; after it, \<open>/\<close> has inode 100, or inode 200 when the
  directory was swapped in between.
\<close>

definition demoStat :: "64 word \<Rightarrow> stat_t" where
  "demoStat ino = \<lparr>st_Dev = 1, st_Ino = ino, st_Mode = 0x41ED, st_Uid = 0, st_Gid = 0, st_Rdev = 0\<rparr>"

definition chrootOs :: "bool \<Rightarrow> bool os" where
  "chrootOs swapped =
     nullOs\<lparr>unix_Stat := (\<lambda>p w.
               if \<not> w \<and> p = ''/rootfs'' then Inr (demoStat 100)
               else if w \<and> p = ''/'' then Inr (demoStat (if swapped then 200 else 100))
               else Inl ENOENT),
            unix_Chroot := (\<lambda>p w. (None, True))\<rparr>"

section \<open>Mounts: \<open>setupChrootBindMounts\<close>\<close>

text \<open>
  \<open>specs.Mount\<close> and \<open>specs.LinuxIDMapping\<close> (three \<open>uint32\<close>).
\<close>

record mount_entry =
  m_Destination :: string
  m_Type :: string
  m_Source :: string
  m_Options :: "string list"

record id_mapping =
  ContainerID :: "32 word"
  HostID :: "32 word"
  Size :: "32 word"

text \<open>
  A mount call as the loops issue it: \<open>unix.Mount\<close> or \<open>mount.Mount\<close> with its
  arguments.
\<close>

datatype mount_call =
    UnixMount string string string "64 word" string
  | MountMount string string string string

definition doMount :: "'w os \<Rightarrow> mount_call \<Rightarrow> 'w \<Rightarrow> errno option \<times> 'w" where
  "doMount os c w =
     (case c of
        UnixMount source target' fstype flags data' \<Rightarrow> unix_Mount os source target' fstype flags data' w
      | MountMount device target' mType options \<Rightarrow> mount_Mount os device target' mType options w)"

text \<open>
  A \<open>return\<close> inside a loop of \<open>setupChrootBindMounts\<close> is \<open>Some (withUndo, e)\<close>, where
  \<open>withUndo\<close> is false for the one \<open>return nil, ...\<close> of line 651; \<open>None\<close> is the end of
  the loop body or a \<open>continue\<close>.
\<close>

type_synonym returned = "(bool \<times> setup_error) option"

definition HasPrefix :: "string \<Rightarrow> string \<Rightarrow> bool" where
  "HasPrefix s prefix' = (take (length prefix') s = prefix')"

fun strings_Join :: "string list \<Rightarrow> string \<Rightarrow> string" where
  "strings_Join [] sep = []"
| "strings_Join [x] sep = x"
| "strings_Join (x # y # zs) sep = x @ sep @ strings_Join (y # zs) sep"

text \<open>The flag words of lines 521 and 522.\<close>

definition commonFlags :: "64 word" where
  "commonFlags = MS_BIND OR MS_REC OR MS_PRIVATE"

definition bindFlags :: "64 word" where
  "bindFlags = commonFlags OR MS_NODEV"

subsection \<open>The generic mount loop, lines 606 to 736\<close>

text \<open>The \<open>switch\<close> of lines 608 to 622: the destinations the loop passes over.\<close>

definition skippedDestination :: "string \<Rightarrow> bool" where
  "skippedDestination d =
     (if d = ''/dev'' \<or> d = ''/proc'' \<or> d = ''/sys'' then True
      else if HasPrefix d ''/dev/'' then True
      else if HasPrefix d ''/proc/'' then True
      else if HasPrefix d ''/sys/'' then True
      else False)"

text \<open>The test of line 624: the types the loop passes over.\<close>

definition skippedType :: "string \<Rightarrow> bool" where
  "skippedType t = (t \<noteq> ''bind'' \<and> t \<noteq> ''tmpfs'' \<and> t \<noteq> ''overlay'')"

text \<open>
  One turn of the \<open>switch\<close> of lines 680 to 705 on the pair
  \<open>(requestFlags, expectedFlags)\<close>, and the loop of line 679 over the options.
\<close>

definition applyOption :: "string \<Rightarrow> 64 word \<times> 64 word \<Rightarrow> 64 word \<times> 64 word" where
  "applyOption option' fl =
     (let requestFlags = fst fl; expectedFlags = snd fl in
      if option' = ''nodev'' then (requestFlags OR MS_NODEV, expectedFlags OR ST_NODEV)
      else if option' = ''dev'' then (requestFlags AND NOT MS_NODEV, expectedFlags AND NOT ST_NODEV)
      else if option' = ''noexec'' then (requestFlags OR MS_NOEXEC, expectedFlags OR ST_NOEXEC)
      else if option' = ''exec'' then (requestFlags AND NOT MS_NOEXEC, expectedFlags AND NOT ST_NOEXEC)
      else if option' = ''nosuid'' then (requestFlags OR MS_NOSUID, expectedFlags OR ST_NOSUID)
      else if option' = ''suid'' then (requestFlags AND NOT MS_NOSUID, expectedFlags AND NOT ST_NOSUID)
      else if option' = ''ro'' then (requestFlags OR MS_RDONLY, expectedFlags OR ST_RDONLY)
      else if option' = ''rw'' then (requestFlags AND NOT MS_RDONLY, expectedFlags AND NOT ST_RDONLY)
      else (requestFlags, expectedFlags))"

fun applyOptions :: "string list \<Rightarrow> 64 word \<times> 64 word \<Rightarrow> 64 word \<times> 64 word" where
  "applyOptions [] fl = fl"
| "applyOptions (option' # options) fl = applyOptions options (applyOption option' fl)"

text \<open>Lines 677 to 706: the pair \<open>(requestFlags, expectedFlags)\<close> of a mount entry.\<close>

definition mountFlags :: "string list \<Rightarrow> 64 word \<times> 64 word" where
  "mountFlags options = applyOptions options (bindFlags, 0)"

text \<open>
  Lines 644 to 655: the target of the entry and the error left in \<open>err\<close>, or the return
  of line 651.
\<close>

definition resolveTarget ::
  "'w os \<Rightarrow> string \<Rightarrow> mount_entry \<Rightarrow> 'w \<Rightarrow> (bool \<times> setup_error) + (string \<times> errno option)"
where
  "resolveTarget os rootPath m w =
     (let target' = filepath_Join os rootPath (m_Destination m) in
      case os_Lstat os target' w of
        Inl e \<Rightarrow> Inr (target', Some e)
      | Inr stat' \<Rightarrow>
          if fi_ModeSymlink stat' then
            (case copier_Eval os rootPath (m_Destination m) w of
               Inl e \<Rightarrow> Inl (False, SetupError ''evaluating symlink'' (Some e))
             | Inr evaluated \<Rightarrow>
                 (case os_Stat os evaluated w of
                    Inl e \<Rightarrow> Inr (evaluated, Some e)
                  | Inr info \<Rightarrow> Inr (evaluated, None)))
          else Inr (target', None))"

text \<open>Lines 656 to 676: the target that is not there yet is created.\<close>

definition createTarget ::
  "'w os \<Rightarrow> file_info \<Rightarrow> string \<Rightarrow> errno option \<Rightarrow> 'w \<Rightarrow> returned \<times> 'w"
where
  "createTarget os srcinfo target' err w =
     (case err of
        None \<Rightarrow> (None, w)
      | Some e \<Rightarrow>
          if \<not> isNotExist e
          then (Some (True, SetupError ''error examining target for mounting in mount namespace'' (Some e)), w)
          else if fi_IsDir srcinfo then
            (case os_MkdirAll os target' w of
               (Some e1, w1) \<Rightarrow>
                 (Some (True, SetupError ''error creating mountpoint in mount namespace'' (Some e1)), w1)
             | (None, w1) \<Rightarrow> (None, w1))
          else
            (case os_MkdirAll os (filepath_Dir os target') w of
               (Some e1, w1) \<Rightarrow>
                 (Some (True, SetupError ''error ensuring parent of mountpoint is present in mount namespace'' (Some e1)), w1)
             | (None, w1) \<Rightarrow>
                 (case os_OpenFile_create os target' w1 of
                    (Some e2, w2) \<Rightarrow>
                      (Some (True, SetupError ''error creating mountpoint in mount namespace'' (Some e2)), w2)
                  | (None, w2) \<Rightarrow> (None, w2))))"

text \<open>
  Lines 707 to 735: the mount of the entry, the check of the flags of the mounted file
  system, and the remount when they are not the expected ones. The result carries the
  mount calls made, in order.
\<close>

definition mountAndVerify ::
  "'w os \<Rightarrow> mount_entry \<Rightarrow> string \<Rightarrow> 'w \<Rightarrow> returned \<times> 'w \<times> mount_call list"
where
  "mountAndVerify os m target' w =
     (let requestFlags = fst (mountFlags (m_Options m));
          expectedFlags = snd (mountFlags (m_Options m));
          first =
            (if m_Type m = ''bind'' then UnixMount (m_Source m) target' '''' requestFlags ''''
             else MountMount (m_Source m) target' (m_Type m)
                    (strings_Join (m_Options m @ [''private'']) '',''));
          remount = UnixMount target' target' ''bind'' (requestFlags OR MS_REMOUNT) ''''
      in
      case doMount os first w of
        (Some e, w1) \<Rightarrow>
          (Some (True, SetupError
             (if m_Type m = ''bind'' then ''error bind mounting from host in mount namespace''
              else if m_Type m = ''tmpfs'' then ''error mounting tmpfs in mount namespace''
              else ''error mounting overlay in mount namespace'') (Some e)), w1, [first])
      | (None, w1) \<Rightarrow>
          (case unix_Statfs os target' w1 of
             Inl e \<Rightarrow>
               (Some (True, SetupError ''error checking if directory was bound read-only'' (Some e)),
                w1, [first])
           | Inr fsFlags \<Rightarrow>
               if fsFlags AND expectedFlags \<noteq> expectedFlags then
                 (case doMount os remount w1 of
                    (Some e, w2) \<Rightarrow>
                      (Some (True, SetupError
                         ''error remounting in mount namespace with expected flags'' (Some e)),
                       w2, [first, remount])
                  | (None, w2) \<Rightarrow> (None, w2, [first, remount]))
               else (None, w1, [first])))"

text \<open>The body of the loop for one entry of \<open>spec.Mounts\<close>.\<close>

definition mountEntry ::
  "'w os \<Rightarrow> string \<Rightarrow> mount_entry \<Rightarrow> 'w \<Rightarrow> returned \<times> 'w \<times> mount_call list"
where
  "mountEntry os rootPath m w =
     (if skippedDestination (m_Destination m) then (None, w, [])
      else if skippedType (m_Type m) then (None, w, [])
      else
        case (if m_Type m = ''bind'' then os_Stat os (m_Source m) w else os_Stat os ''/'' w) of
          Inl e \<Rightarrow>
            (Some (True, SetupError
               (if m_Type m = ''bind'' then ''error examining source for mounting in mount namespace''
                else ''error examining / to use as a template'') (Some e)), w, [])
        | Inr srcinfo \<Rightarrow>
            (case resolveTarget os rootPath m w of
               Inl r \<Rightarrow> (Some r, w, [])
             | Inr (target', err) \<Rightarrow>
                 (case createTarget os srcinfo target' err w of
                    (Some r, w1) \<Rightarrow> (Some r, w1, [])
                  | (None, w1) \<Rightarrow> mountAndVerify os m target' w1)))"

text \<open>
  The loop over \<open>spec.Mounts\<close>. Every mount call is recorded with the entry in whose turn
  it was made.
\<close>

fun mountLoop ::
  "'w os \<Rightarrow> string \<Rightarrow> mount_entry list \<Rightarrow> 'w \<Rightarrow> returned \<times> 'w \<times> (mount_entry \<times> mount_call) list"
where
  "mountLoop os rootPath [] w = (None, w, [])"
| "mountLoop os rootPath (m # mounts) w =
     (case mountEntry os rootPath m w of
        (Some r, w1, calls) \<Rightarrow> (Some r, w1, map (Pair m) calls)
      | (None, w1, calls) \<Rightarrow>
          (case mountLoop os rootPath mounts w1 of
             (r, w2, later) \<Rightarrow> (r, w2, map (Pair m) calls @ later)))"

text \<open>
  For the statement of the flags: the last token of an axis among the options, and
  whether the bit of the axis ends up set, given whether it was set at the start.
\<close>

definition lastToken :: "string \<Rightarrow> string \<Rightarrow> string list \<Rightarrow> string option" where
  "lastToken on off options = find (\<lambda>option'. option' = on \<or> option' = off) (rev options)"

definition axisSet :: "string \<Rightarrow> string \<Rightarrow> bool \<Rightarrow> string list \<Rightarrow> bool" where
  "axisSet on off initially options =
     (case lastToken on off options of None \<Rightarrow> initially | Some t \<Rightarrow> t = on)"

subsection \<open>Read-only paths, lines 740 to 787\<close>

definition roFlags :: "64 word" where
  "roFlags = MS_NODEV OR MS_NOEXEC OR MS_NOSUID OR MS_RDONLY"

text \<open>
  Lines 771 to 786, after the path was bound onto itself: the remount when the bind did
  not make it read-only, and the last check. \<open>calls\<close> are the mount calls made so far.
\<close>

definition remountReadOnly ::
  "'w os \<Rightarrow> string \<Rightarrow> 'w \<Rightarrow> mount_call list \<Rightarrow> returned \<times> 'w \<times> mount_call list"
where
  "remountReadOnly os target' w calls =
     (case unix_Statfs os target' w of
        Inl e \<Rightarrow>
          (Some (True, SetupError ''error checking if directory was bound read-only'' (Some e)),
           w, calls)
      | Inr fsFlags \<Rightarrow>
          (let remount = UnixMount target' target' '''' (roFlags OR MS_BIND OR MS_REMOUNT) '''';
               remounted =
                 (if fsFlags AND ST_RDONLY = 0
                  then (case doMount os remount w of (r, w1) \<Rightarrow> (r, w1, calls @ [remount]))
                  else (None, w, calls))
           in
           case remounted of
             (Some e, w1, calls1) \<Rightarrow>
               (Some (True, SetupError ''error remounting in mount namespace read-only'' (Some e)),
                w1, calls1)
           | (None, w1, calls1) \<Rightarrow>
               (case unix_Statfs os target' w1 of
                  Inl e \<Rightarrow>
                    (Some (True, SetupError
                       ''error checking if directory was remounted read-only'' (Some e)),
                     w1, calls1)
                | Inr fsFlags2 \<Rightarrow>
                    if fsFlags2 AND ST_RDONLY = 0
                    then (Some (True, SetupError
                            ''error verifying that path in mount namespace was remounted read-only''
                            None), w1, calls1)
                    else (None, w1, calls1))))"

text \<open>The body of the loop for one entry of \<open>spec.Linux.ReadonlyPaths\<close>.\<close>

definition readonlyPath ::
  "'w os \<Rightarrow> string \<Rightarrow> string \<Rightarrow> 'w \<Rightarrow> returned \<times> 'w \<times> mount_call list"
where
  "readonlyPath os rootPath roPath w =
     (let r = filepath_Join os rootPath roPath in
      case filepath_EvalSymlinks os r w of
        Inl e \<Rightarrow>
          if isNotExist e then (None, w, [])
          else (Some (True, SetupError
                  ''error checking for symlinks before marking it read-only'' (Some e)), w, [])
      | Inr target' \<Rightarrow>
          (case unix_Statfs os target' w of
             Inl e \<Rightarrow>
               if isNotExist e then (None, w, [])
               else (Some (True, SetupError
                       ''error checking if directory is already read-only'' (Some e)), w, [])
           | Inr fsFlags \<Rightarrow>
               if fsFlags AND ST_RDONLY \<noteq> 0 then (None, w, [])
               else
                 (let bind = UnixMount target' target' '''' (roFlags OR MS_BIND OR MS_REC) '''' in
                  case doMount os bind w of
                    (Some e, w1) \<Rightarrow>
                      if isNotExist e then (None, w1, [bind])
                      else (Some (True, SetupError
                              ''error bind mounting onto itself in preparation for making it read-only''
                              (Some e)), w1, [bind])
                  | (None, w1) \<Rightarrow> remountReadOnly os target' w1 [bind])))"

text \<open>The loop over \<open>spec.Linux.ReadonlyPaths\<close>, with the mount calls it makes in order.\<close>

fun readonlyLoop ::
  "'w os \<Rightarrow> string \<Rightarrow> string list \<Rightarrow> 'w \<Rightarrow> returned \<times> 'w \<times> mount_call list"
where
  "readonlyLoop os rootPath [] w = (None, w, [])"
| "readonlyLoop os rootPath (roPath # roPaths) w =
     (case readonlyPath os rootPath roPath w of
        (Some r, w1, calls) \<Rightarrow> (Some r, w1, calls)
      | (None, w1, calls) \<Rightarrow>
          (case readonlyLoop os rootPath roPaths w1 of
             (r, w2, later) \<Rightarrow> (r, w2, calls @ later)))"

text \<open>
  For the statement of idempotence. A path is settled in a state when the loop body
  passes over it there: it does not resolve or cannot be inspected because it does not
  exist, or the file system it resolves to is flagged read-only.
\<close>

definition settled :: "'w os \<Rightarrow> string \<Rightarrow> string \<Rightarrow> 'w \<Rightarrow> bool" where
  "settled os rootPath roPath w =
     (case filepath_EvalSymlinks os (filepath_Join os rootPath roPath) w of
        Inl e \<Rightarrow> isNotExist e
      | Inr target' \<Rightarrow>
          (case unix_Statfs os target' w of
             Inl e \<Rightarrow> isNotExist e
           | Inr fsFlags \<Rightarrow> fsFlags AND ST_RDONLY \<noteq> 0))"

text \<open>
  A file system that is left alone but for the mount calls of the loop: a mount call
  changes neither how a path resolves nor that a path is settled, and it does not
  report a target as missing that was just inspected.
\<close>

definition quiescent :: "'w os \<Rightarrow> string \<Rightarrow> string list \<Rightarrow> bool" where
  "quiescent os rootPath roPaths =
     (\<forall>c w.
        (\<forall>p. filepath_EvalSymlinks os p (snd (doMount os c w)) = filepath_EvalSymlinks os p w)
      \<and> (\<forall>roPath \<in> set roPaths.
            settled os rootPath roPath w \<longrightarrow> settled os rootPath roPath (snd (doMount os c w)))
      \<and> (\<forall>source target' fstype flags data' fsFlags e.
            c = UnixMount source target' fstype flags data'
            \<and> unix_Statfs os target' w = Inr fsFlags \<and> fst (doMount os c w) = Some e
            \<longrightarrow> \<not> isNotExist e))"

subsection \<open>Masked paths, lines 801 to 901\<close>

text \<open>
  Lines 828 to 851, as Go parses them: \<open>&\<close> binds tighter than \<open>|\<close>, and \<open>|\<close> tighter
  than \<open>!=\<close>, so \<open>stat.Mode&unix.S_IROTH|unix.S_IXOTH != 0\<close> is
  \<open>((stat.Mode & unix.S_IROTH) | unix.S_IXOTH) != 0\<close>. The second test reads the bits
  of \<open>others\<close> again, as the source does. The sum \<open>ContainerID + Size\<close> is a \<open>uint32\<close>
  and wraps around.
\<close>

definition inMapping :: "32 word \<Rightarrow> id_mapping \<Rightarrow> bool" where
  "inMapping ident mapping =
     (ident \<ge> ContainerID mapping \<and> ident < ContainerID mapping + Size mapping)"

definition isAccessible :: "stat_t \<Rightarrow> id_mapping list \<Rightarrow> id_mapping list \<Rightarrow> bool" where
  "isAccessible stat' gidMappings uidMappings =
     (let isAccessible0 = False;
          isAccessible1 =
            (if (st_Mode stat' AND S_IROTH) OR S_IXOTH \<noteq> 0 then True else isAccessible0);
          isAccessible2 =
            (if \<not> isAccessible1 \<and> (st_Mode stat' AND S_IROTH) OR S_IXOTH \<noteq> 0
             then (if length gidMappings > 0 \<and> list_ex (inMapping (st_Gid stat')) gidMappings
                   then True else isAccessible1)
             else isAccessible1);
          isAccessible3 =
            (if \<not> isAccessible2 \<and> (st_Mode stat' AND S_IRUSR) OR S_IXUSR \<noteq> 0
             then (if length uidMappings > 0 \<and> list_ex (inMapping (st_Uid stat')) uidMappings
                   then True else isAccessible2)
             else isAccessible2)
      in isAccessible3)"

text \<open>
  The accessibility test in the words of the specification: the read or execute bits
  of others, or those of the group with the group ID in a GID-mapping range, or those
  of the owner with the user ID in a UID-mapping range.
\<close>

definition isAccessible_spec :: "stat_t \<Rightarrow> id_mapping list \<Rightarrow> id_mapping list \<Rightarrow> bool" where
  "isAccessible_spec stat' gidMappings uidMappings =
     (st_Mode stat' AND (S_IROTH OR S_IXOTH) \<noteq> 0
      \<or> (st_Mode stat' AND (S_IRGRP OR S_IXGRP) \<noteq> 0
           \<and> list_ex (inMapping (st_Gid stat')) gidMappings)
      \<or> (st_Mode stat' AND (S_IRUSR OR S_IXUSR) \<noteq> 0
           \<and> list_ex (inMapping (st_Uid stat')) uidMappings))"

text \<open>Lines 865 to 876: whether a name other than \<open>.\<close> and \<open>..\<close> is among the names read.\<close>

fun hasContentNames :: "string list \<Rightarrow> bool" where
  "hasContentNames [] = False"
| "hasContentNames (name # names) =
     (if name = ''.'' \<or> name = ''..'' then hasContentNames names else True)"

text \<open>\<open>isDevNull\<close>, lines 482 to 495.\<close>

definition isDevNull :: "'w os \<Rightarrow> file_info \<Rightarrow> 'w \<Rightarrow> bool" where
  "isDevNull os dev w =
     (if fi_ModeCharDevice dev then
        (case unix_Stat os ''/dev/null'' w of
           Inl e \<Rightarrow> False
         | Inr nullStat \<Rightarrow> if st_Rdev (fi_Sys dev) = st_Rdev nullStat then True else False)
      else False)"

definition maskFlags :: "64 word" where
  "maskFlags = MS_BIND OR MS_NOSUID OR MS_NODEV OR MS_NOEXEC OR MS_RDONLY"

text \<open>
  Lines 879 to 892: the empty directory is mounted over a masked directory, and
  remounted when the mount did not come out read-only.
\<close>

definition maskDirectory ::
  "'w os \<Rightarrow> string \<Rightarrow> string \<Rightarrow> bool \<Rightarrow> bool \<Rightarrow> bool \<Rightarrow> 'w \<Rightarrow> returned \<times> 'w \<times> mount_call list"
where
  "maskDirectory os roEmptyDir target' isReadOnly hasContent accessible w =
     (if \<not> isReadOnly \<or> (hasContent \<and> accessible) then
        (let over = UnixMount roEmptyDir target' ''bind'' maskFlags '''';
             remount = UnixMount target' target' '''' (maskFlags OR MS_REMOUNT) ''''
         in
         case doMount os over w of
           (Some e, w1) \<Rightarrow>
             (Some (True, SetupError ''error masking directory in mount namespace'' (Some e)),
              w1, [over])
         | (None, w1) \<Rightarrow>
             (case unix_Statfs os target' w1 of
                Inl e \<Rightarrow>
                  (Some (True, SetupError
                     ''error checking if directory was mounted read-only in mount namespace''
                     (Some e)), w1, [over])
              | Inr fsFlags \<Rightarrow>
                  if fsFlags AND ST_RDONLY = 0 then
                    (case doMount os remount w1 of
                       (Some e, w2) \<Rightarrow>
                         (Some (True, SetupError
                            ''error making sure directory in mount namespace is read only''
                            (Some e)), w2, [over, remount])
                     | (None, w2) \<Rightarrow> (None, w2, [over, remount]))
                  else (None, w1, [over])))
      else (None, w, []))"

text \<open>
  The body of the loop for one entry of \<open>spec.Linux.MaskedPaths\<close>. \<open>roEmptyDir\<close> is the
  empty directory created before the loop.
\<close>

definition maskedPath ::
  "'w os \<Rightarrow> string \<Rightarrow> id_mapping list \<Rightarrow> id_mapping list \<Rightarrow> string \<Rightarrow> string \<Rightarrow> 'w
     \<Rightarrow> returned \<times> 'w \<times> mount_call list"
where
  "maskedPath os rootPath gidMappings uidMappings roEmptyDir masked w =
     (let t = filepath_Join os rootPath masked;
          target' = (case filepath_EvalSymlinks os t w of Inl e \<Rightarrow> t | Inr resolved \<Rightarrow> resolved)
      in
      case os_Stat os target' w of
        Inl e \<Rightarrow>
          if isNotExist e then (None, w, [])
          else (Some (True, SetupError ''error examining path for masking in mount namespace''
                  (Some e)), w, [])
      | Inr targetinfo \<Rightarrow>
          if fi_IsDir targetinfo then
            (case unix_Statfs os target' w of
               Inl e \<Rightarrow>
                 (Some (True, SetupError ''error checking if directory is a mountpoint'' (Some e)),
                  w, [])
             | Inr statfsFlags \<Rightarrow>
                 (case unix_Stat os target' w of
                    Inl e \<Rightarrow>
                      (Some (True, SetupError ''error checking permissions on directory'' (Some e)),
                       w, [])
                  | Inr stat' \<Rightarrow>
                      (case os_Readdirnames os target' w of
                         OpenFailed e \<Rightarrow>
                           if \<not> isPermission e
                           then (Some (True, SetupError ''error opening directory'' (Some e)), w, [])
                           else maskDirectory os roEmptyDir target'
                                  (statfsFlags AND MS_RDONLY \<noteq> 0) False
                                  (isAccessible stat' gidMappings uidMappings) w
                       | ReadFailed e \<Rightarrow>
                           (Some (True, SetupError ''error reading contents of directory'' (Some e)),
                            w, [])
                       | Names names \<Rightarrow>
                           maskDirectory os roEmptyDir target'
                             (statfsFlags AND MS_RDONLY \<noteq> 0) (hasContentNames names)
                             (isAccessible stat' gidMappings uidMappings) w)))
          else if \<not> isDevNull os targetinfo w then
            (let over = UnixMount ''/dev/null'' target' '''' (MS_BIND OR MS_RDONLY OR MS_PRIVATE) '''' in
             case doMount os over w of
               (Some e, w1) \<Rightarrow>
                 (Some (True, SetupError ''error masking non-directory in mount namespace'' (Some e)),
                  w1, [over])
             | (None, w1) \<Rightarrow> (None, w1, [over]))
          else (None, w, []))"

text \<open>
  One option's effect on the bit of an axis, and on the bit at position \<open>n\<close> of a flag
  word: bit 0 is read-only, bit 1 nosuid, bit 2 nodev, bit 3 noexec.
\<close>

definition tokBit :: "string \<Rightarrow> string \<Rightarrow> string \<Rightarrow> bool \<Rightarrow> bool" where
  "tokBit on off opt b = (if opt = on then True else if opt = off then False else b)"

definition axisBits :: "string \<Rightarrow> nat \<Rightarrow> bool \<Rightarrow> bool" where
  "axisBits opt n b =
     (if n = 2 then tokBit ''nodev'' ''dev'' opt b
      else if n = 3 then tokBit ''noexec'' ''exec'' opt b
      else if n = 1 then tokBit ''nosuid'' ''suid'' opt b
      else if n = 0 then tokBit ''ro'' ''rw'' opt b
      else b)"

text \<open>
  A world for evaluation: the state lists the targets mounted read-only so far.
  Everything exists but \<open>/rootfs/missing\<close>; \<open>/rootfs/proc/kcore\<close> is a regular file,
  \<open>/rootfs/proc/null\<close> is the null device, everything else a directory; the
  directory \<open>/rootfs/proc/acpi\<close> has an entry. A mount succeeds, and makes its target
  read-only when it asks for that.
\<close>

definition demoInfo :: "string \<Rightarrow> file_info" where
  "demoInfo p =
     (if p = ''/rootfs/proc/kcore''
      then \<lparr>fi_IsDir = False, fi_ModeSymlink = False, fi_ModeCharDevice = False,
            fi_Sys = \<lparr>st_Dev = 1, st_Ino = 7, st_Mode = 0x8100, st_Uid = 0, st_Gid = 0, st_Rdev = 0\<rparr>\<rparr>
      else if p = ''/rootfs/proc/null'' \<or> p = ''/dev/null''
      then \<lparr>fi_IsDir = False, fi_ModeSymlink = False, fi_ModeCharDevice = True,
            fi_Sys = \<lparr>st_Dev = 1, st_Ino = 8, st_Mode = 0x21B6, st_Uid = 0, st_Gid = 0, st_Rdev = 0x103\<rparr>\<rparr>
      else \<lparr>fi_IsDir = True, fi_ModeSymlink = False, fi_ModeCharDevice = False,
            fi_Sys = \<lparr>st_Dev = 1, st_Ino = 9, st_Mode = 0x41C0, st_Uid = 0, st_Gid = 0, st_Rdev = 0\<rparr>\<rparr>)"

definition demoOs :: "(string list) os" where
  "demoOs =
     nullOs\<lparr>unix_Stat := (\<lambda>p w. if p = ''/rootfs/missing'' then Inl ENOENT else Inr (fi_Sys (demoInfo p))),
            unix_Statfs := (\<lambda>p w. if p = ''/rootfs/missing'' then Inl ENOENT
                                  else Inr (if p \<in> set w then ST_RDONLY else 0)),
            unix_Mount := (\<lambda>source target' fstype flags data' w.
                            (None, if flags AND MS_RDONLY \<noteq> 0 then target' # w else w)),
            os_Stat := (\<lambda>p w. if p = ''/rootfs/missing'' then Inl ENOENT else Inr (demoInfo p)),
            os_Lstat := (\<lambda>p w. if p = ''/rootfs/missing'' then Inl ENOENT else Inr (demoInfo p)),
            os_Readdirnames := (\<lambda>p w. Names (if p = ''/rootfs/proc/acpi''
                                               then [''.'', ''..'', ''wakeup''] else [''.'', ''..''])),
            filepath_EvalSymlinks := (\<lambda>p w. if p = ''/rootfs/missing'' then Inl ENOENT else Inr p)\<rparr>"

definition demoMounts :: "mount_entry list" where
  "demoMounts =
     [\<lparr>m_Destination = ''/dev/shm'', m_Type = ''tmpfs'', m_Source = ''shm'', m_Options = []\<rparr>,
      \<lparr>m_Destination = ''/data'', m_Type = ''bind'', m_Source = ''/host/data'', m_Options = [''ro'']\<rparr>,
      \<lparr>m_Destination = ''/mqueue'', m_Type = ''mqueue'', m_Source = ''mqueue'', m_Options = []\<rparr>]"

text \<open>
  The decision table of the specification for a masked path that exists, from the four
  bits of its MaskingDecision and whether the target is the null device: an
  already-read-only, empty directory gets no mount; a writable or
  non-empty-and-accessible directory gets the empty directory; a non-directory that is
  the null device gets no mount, any other gets the null device. A directory in neither
  row of the table is left untouched.
\<close>

datatype mask_action = NoMount | OvermountEmptyDir | BindDevNull

definition maskingDecision :: "bool \<Rightarrow> bool \<Rightarrow> bool \<Rightarrow> bool \<Rightarrow> bool \<Rightarrow> mask_action" where
  "maskingDecision isDirectory isReadOnly hasContent accessible isNull =
     (if isDirectory then
        (if isReadOnly \<and> \<not> hasContent then NoMount
         else if \<not> isReadOnly \<or> (hasContent \<and> accessible) then OvermountEmptyDir
         else NoMount)
      else if isNull then NoMount
      else BindDevNull)"

text \<open>
  The bits of the table in the words of the specification, apart from the code's own
  helpers. A directory has content when a name other than \<open>.\<close> and \<open>..\<close> is among
  its entries; the attempt to read the entries yields no bit when it makes the loop
  return, and no content when the directory may not be opened. A target is the null
  device when it is a character device with the device number of \<open>/dev/null\<close>;
  \<open>nullStat\<close> is the result of inspecting \<open>/dev/null\<close>.
\<close>

definition hasEntries :: "string list \<Rightarrow> bool" where
  "hasEntries names = list_ex (\<lambda>name. name \<noteq> ''.'' \<and> name \<noteq> ''..'') names"

definition contentRead :: "readdir_result \<Rightarrow> bool option" where
  "contentRead rd =
     (case rd of
        OpenFailed e \<Rightarrow> if e = EACCES \<or> e = EPERM then Some False else None
      | ReadFailed e \<Rightarrow> None
      | Names names \<Rightarrow> Some (hasEntries names))"

definition nullDevice :: "errno + stat_t \<Rightarrow> file_info \<Rightarrow> bool" where
  "nullDevice nullStat info =
     (case nullStat of
        Inl e \<Rightarrow> False
      | Inr null \<Rightarrow> fi_ModeCharDevice info \<and> st_Rdev (fi_Sys info) = st_Rdev null)"

chapter \<open>Properties\<close>

section \<open>Resource limits\<close>

lemma find_append_cases:
  "find P (xs @ ys) = (case find P xs of None \<Rightarrow> find P ys | Some x \<Rightarrow> Some x)"
  by (induction xs) auto

lemma parseRlimits_loop_char:
  "parseRlimits_loop U ls acc =
     (case find (\<lambda>l. map_of rlimitsMap (U (rl_Type l)) = None) ls of
        Some bad \<Rightarrow> Inl (ErrParsingLimitType (rl_Type bad))
      | None \<Rightarrow>
          Inr (\<lambda>resource.
            case find (\<lambda>l. map_of rlimitsMap (U (rl_Type l)) = Some resource) (rev ls) of
              Some l \<Rightarrow> Some \<lparr>Cur = rl_Soft l, Max = rl_Hard l\<rparr>
            | None \<Rightarrow> acc resource))"
proof (induction ls arbitrary: acc)
  case Nil
  show ?case by simp
next
  case (Cons l ls)
  show ?case
  proof (cases "map_of rlimitsMap (U (rl_Type l))")
    case None
    then show ?thesis by simp
  next
    case (Some r)
    then show ?thesis
      by (auto simp: Cons.IH find_append_cases fun_eq_iff split: option.splits)
  qed
qed

lemma parseRlimits_last_entry:
  "parseRlimits ToUpper process =
     (case process of
        None \<Rightarrow> Inr Map.empty
      | Some limits \<Rightarrow>
          (case find (\<lambda>l. map_of rlimitsMap (ToUpper (rl_Type l)) = None) limits of
             Some bad \<Rightarrow> Inl (ErrParsingLimitType (rl_Type bad))
           | None \<Rightarrow>
               Inr (\<lambda>resource.
                 case find (\<lambda>l. map_of rlimitsMap (ToUpper (rl_Type l)) = Some resource)
                        (rev limits) of
                   Some l \<Rightarrow> Some \<lparr>Cur = rl_Soft l, Max = rl_Hard l\<rparr>
                 | None \<Rightarrow> None)))"
  by (simp add: parseRlimits_def parseRlimits_loop_char split: option.splits)

lemma setRlimits_loop_calls:
  "setRlimits_loop os limits resources onlyLower onlyRaise w = (r, w', calls) \<Longrightarrow>
     (resource, lim) \<in> set calls \<Longrightarrow> limits resource = Some lim"
proof (induction resources arbitrary: w r w' calls)
  case Nil
  then show ?case by simp
next
  case (Cons r0 resources)
  show ?case
  proof (cases "limits r0")
    case None
    with Cons.prems Cons.IH show ?thesis by simp
  next
    case (Some desired)
    show ?thesis
    proof (cases "unix_Getrlimit os r0 w")
      case (Inl e)
      with Some Cons.prems show ?thesis by simp
    next
      case (Inr current)
      show ?thesis
      proof (cases "(Max desired > Max current \<and> onlyLower) \<or> (Max desired < Max current \<and> onlyRaise)")
        case True
        with Some Inr Cons.prems(1)
        have "setRlimits_loop os limits resources onlyLower onlyRaise w = (r, w', calls)"
          by (auto split: if_splits)
        from Cons.IH [OF this Cons.prems(2)] show ?thesis .
      next
        case False
        obtain e1 w1 where s: "unix_Setrlimit os r0 desired w = (e1, w1)"
          by (cases "unix_Setrlimit os r0 desired w")
        show ?thesis
        proof (cases e1)
          case (Some e)
          with \<open>limits r0 = Some desired\<close> Inr False s Cons.prems show ?thesis by auto
        next
          case None
          obtain r2 w2 calls2 where
            l: "setRlimits_loop os limits resources onlyLower onlyRaise w1 = (r2, w2, calls2)"
            by (cases "setRlimits_loop os limits resources onlyLower onlyRaise w1") auto
          with \<open>limits r0 = Some desired\<close> Inr False s None Cons.prems(1)
          have "calls = (r0, desired) # calls2" by auto
          with Cons.prems(2) Cons.IH [OF l] \<open>limits r0 = Some desired\<close> show ?thesis by auto
        qed
      qed
    qed
  qed
qed

text \<open>
  Claim C10. \<open>parseRlimits\<close> looks every type name up after upper-casing it, so names
  that differ only in case resolve alike. It returns the error for the first entry whose
  upper-cased name is not a key of the table. When every name is known, each resource
  maps to the soft and hard limit of the last entry of its type in the list, and to
  nothing when the list has no entry of its type: earlier duplicates are overwritten.
  Every \<open>Setrlimit\<close> call that \<open>setRlimits\<close> makes sets a resource to the pair of the last
  entry of its type.
\<close>

theorem parseRlimits_last_entry_wins:
  "parseRlimits ToUpper process =
     (case process of
        None \<Rightarrow> Inr Map.empty
      | Some limits \<Rightarrow>
          (case find (\<lambda>l. map_of rlimitsMap (ToUpper (rl_Type l)) = None) limits of
             Some bad \<Rightarrow> Inl (ErrParsingLimitType (rl_Type bad))
           | None \<Rightarrow>
               Inr (\<lambda>resource.
                 case find (\<lambda>l. map_of rlimitsMap (ToUpper (rl_Type l)) = Some resource)
                        (rev limits) of
                   Some l \<Rightarrow> Some \<lparr>Cur = rl_Soft l, Max = rl_Hard l\<rparr>
                 | None \<Rightarrow> None)))
   \<and> (\<forall>(resource, lim) \<in>
          set (snd (snd (setRlimits ToUpper os (Some limits) resources onlyLower onlyRaise w))).
        \<exists>l. find (\<lambda>l. map_of rlimitsMap (ToUpper (rl_Type l)) = Some resource) (rev limits) = Some l
          \<and> lim = \<lparr>Cur = rl_Soft l, Max = rl_Hard l\<rparr>)"
proof
  show "parseRlimits ToUpper process =
     (case process of
        None \<Rightarrow> Inr Map.empty
      | Some limits \<Rightarrow>
          (case find (\<lambda>l. map_of rlimitsMap (ToUpper (rl_Type l)) = None) limits of
             Some bad \<Rightarrow> Inl (ErrParsingLimitType (rl_Type bad))
           | None \<Rightarrow>
               Inr (\<lambda>resource.
                 case find (\<lambda>l. map_of rlimitsMap (ToUpper (rl_Type l)) = Some resource)
                        (rev limits) of
                   Some l \<Rightarrow> Some \<lparr>Cur = rl_Soft l, Max = rl_Hard l\<rparr>
                 | None \<Rightarrow> None)))"
    by (rule parseRlimits_last_entry)
next
  let ?run = "setRlimits ToUpper os (Some limits) resources onlyLower onlyRaise w"
  have "\<exists>l. find (\<lambda>l. map_of rlimitsMap (ToUpper (rl_Type l)) = Some resource) (rev limits) = Some l
          \<and> lim = \<lparr>Cur = rl_Soft l, Max = rl_Hard l\<rparr>"
    if mem: "(resource, lim) \<in> set (snd (snd ?run))" for resource lim
  proof (cases "parseRlimits ToUpper (Some limits)")
    case (Inl e)
    with mem show ?thesis by (simp add: setRlimits_def)
  next
    case (Inr parsed)
    obtain r w' calls where
      l: "setRlimits_loop os parsed resources onlyLower onlyRaise w = (r, w', calls)"
      by (cases "setRlimits_loop os parsed resources onlyLower onlyRaise w") auto
    with Inr mem have "(resource, lim) \<in> set calls" by (simp add: setRlimits_def)
    from setRlimits_loop_calls [OF l this] have "parsed resource = Some lim" .
    with Inr show ?thesis
      unfolding parseRlimits_last_entry
      by (auto split: option.splits)
  qed
  then show "\<forall>(resource, lim) \<in> set (snd (snd ?run)).
        \<exists>l. find (\<lambda>l. map_of rlimitsMap (ToUpper (rl_Type l)) = Some resource) (rev limits) = Some l
          \<and> lim = \<lparr>Cur = rl_Soft l, Max = rl_Hard l\<rparr>"
    by auto
qed

theorem parseRlimits_last_entry_wins_witness:
  "(\<exists>m. parseRlimits asciiToUpper
      (Some [\<lparr>rl_Type = ''rlimit_nofile'', rl_Hard = 5, rl_Soft = 3\<rparr>,
             \<lparr>rl_Type = ''RLIMIT_NOFILE'', rl_Hard = 9, rl_Soft = 8\<rparr>]) = Inr m
       \<and> m 7 = Some \<lparr>Cur = 8, Max = 9\<rparr> \<and> m 3 = None)
   \<and> parseRlimits asciiToUpper
      (Some [\<lparr>rl_Type = ''rlimit_nofile'', rl_Hard = 5, rl_Soft = 3\<rparr>,
             \<lparr>rl_Type = ''RLIMIT_BOGUS'', rl_Hard = 9, rl_Soft = 8\<rparr>])
       = Inl (ErrParsingLimitType ''RLIMIT_BOGUS'')
   \<and> snd (snd (setRlimits asciiToUpper (nullOs :: unit os)
        (Some [\<lparr>rl_Type = ''rlimit_nofile'', rl_Hard = 5, rl_Soft = 3\<rparr>,
               \<lparr>rl_Type = ''RLIMIT_NOFILE'', rl_Hard = 9, rl_Soft = 8\<rparr>])
        [7] False False ())) = [(7, \<lparr>Cur = 8, Max = 9\<rparr>)]"
proof -
  have up: "asciiToUpper ''rlimit_nofile'' = ''RLIMIT_NOFILE''"
    "asciiToUpper ''RLIMIT_NOFILE'' = ''RLIMIT_NOFILE''"
    "asciiToUpper ''RLIMIT_BOGUS'' = ''RLIMIT_BOGUS''"
    by (simp_all add: asciiToUpper_def asciiUpperChar_def)
  have parsed: "parseRlimits asciiToUpper
      (Some [\<lparr>rl_Type = ''rlimit_nofile'', rl_Hard = 5, rl_Soft = 3\<rparr>,
             \<lparr>rl_Type = ''RLIMIT_NOFILE'', rl_Hard = 9, rl_Soft = 8\<rparr>]) =
      Inr (\<lambda>resource. if resource = 7 then Some \<lparr>Cur = 8, Max = 9\<rparr> else None)"
    using parseRlimits_last_entry_wins [where ToUpper = asciiToUpper and process =
        "Some [\<lparr>rl_Type = ''rlimit_nofile'', rl_Hard = 5, rl_Soft = 3\<rparr>,
               \<lparr>rl_Type = ''RLIMIT_NOFILE'', rl_Hard = 9, rl_Soft = 8\<rparr>]", THEN conjunct1]
    by (auto simp: up rlimitsMap_def fun_eq_iff)
  have bogus: "parseRlimits asciiToUpper
      (Some [\<lparr>rl_Type = ''rlimit_nofile'', rl_Hard = 5, rl_Soft = 3\<rparr>,
             \<lparr>rl_Type = ''RLIMIT_BOGUS'', rl_Hard = 9, rl_Soft = 8\<rparr>])
       = Inl (ErrParsingLimitType ''RLIMIT_BOGUS'')"
    using parseRlimits_last_entry_wins [where ToUpper = asciiToUpper and process =
        "Some [\<lparr>rl_Type = ''rlimit_nofile'', rl_Hard = 5, rl_Soft = 3\<rparr>,
               \<lparr>rl_Type = ''RLIMIT_BOGUS'', rl_Hard = 9, rl_Soft = 8\<rparr>]", THEN conjunct1]
    by (simp add: up rlimitsMap_def)
  have run: "snd (snd (setRlimits asciiToUpper (nullOs :: unit os)
        (Some [\<lparr>rl_Type = ''rlimit_nofile'', rl_Hard = 5, rl_Soft = 3\<rparr>,
               \<lparr>rl_Type = ''RLIMIT_NOFILE'', rl_Hard = 9, rl_Soft = 8\<rparr>])
        [7] False False ())) = [(7, \<lparr>Cur = 8, Max = 9\<rparr>)]"
    by (simp add: setRlimits_def parsed nullOs_def)
  from parsed bogus run show ?thesis by simp
qed

section \<open>Capabilities\<close>

lemma setSpecCaps_sets:
  "setSpecCaps lib capType capList caps = Inr caps' \<Longrightarrow>
     caps' T = (if T = capType then caps T \<union> findCap lib (cap_List lib) ` set capList else caps T)"
proof (induction capList arbitrary: caps)
  case Nil
  then show ?case by simp
next
  case (Cons a capList)
  from Cons.prems have
    rest: "setSpecCaps lib capType capList (caps_Set caps capType (findCap lib (cap_List lib) a)) = Inr caps'"
    by (auto simp: Let_def split: if_splits)
  show ?case
    using Cons.IH [OF rest] by (auto simp: caps_Set_def)
qed

lemma setKeepCaps_sets:
  "setKeepCaps lib currentCaps capType keepCaps caps = Inr caps' \<Longrightarrow>
     caps' T =
       (if T = capType
        then caps T \<union> (findCap lib (cap_List lib) ` set keepCaps \<inter> currentCaps capType)
        else caps T)"
proof (induction keepCaps arbitrary: caps)
  case Nil
  then show ?case by simp
next
  case (Cons a keepCaps)
  let ?cap = "findCap lib (cap_List lib) a"
  from Cons.prems have
    rest: "setKeepCaps lib currentCaps capType keepCaps
             (if caps_Get currentCaps capType ?cap then caps_Set caps capType ?cap else caps) = Inr caps'"
    by (auto simp: Let_def split: if_splits)
  show ?case
    using Cons.IH [OF rest] by (auto simp: caps_Set_def caps_Get_def)
qed

lemma setCapTypes_sets:
  "setCapTypes lib currentCaps c keepCaps types caps = Inr caps' \<Longrightarrow>
     caps' T =
       (if T \<in> set types
        then caps T \<union> findCap lib (cap_List lib) ` set (capMap c T)
               \<union> (findCap lib (cap_List lib) ` set keepCaps \<inter> currentCaps T)
        else caps T)"
proof (induction types arbitrary: caps)
  case Nil
  then show ?case by simp
next
  case (Cons capType types)
  from Cons.prems obtain caps1 caps2 where
    s1: "setSpecCaps lib capType (capMap c capType) caps = Inr caps1" and
    s2: "setKeepCaps lib currentCaps capType keepCaps caps1 = Inr caps2" and
    s3: "setCapTypes lib currentCaps c keepCaps types caps2 = Inr caps'"
    by (auto split: sum.splits)
  show ?case
    using Cons.IH [OF s3] setSpecCaps_sets [OF s1, of T] setKeepCaps_sets [OF s2, of T]
    by (auto split: if_splits)
qed

lemma setCapabilities_applied:
  assumes "setCapabilities lib calls types capabilities keepCaps = (err, Some caps)"
  obtains currentCaps c where
    "Load_current calls = Inr currentCaps" "capabilities = Some c"
    "setCapTypes lib currentCaps c keepCaps types (\<lambda>_. {}) = Inr caps"
  using assms
  by (auto simp: setCapabilities_def split: option.splits sum.splits)

lemma demo_findCap:
  "findCap demoCapLib (cap_List demoCapLib) ''CAP_SETUID'' = 7"
  "findCap demoCapLib (cap_List demoCapLib) ''CAP_NET_BIND_SERVICE'' = 10"
  by (simp_all add: demoCapLib_def demoCapNames_def asciiEqualFold_def asciiToUpper_def
      asciiUpperChar_def noCap_def)

lemma demo_setCapabilities:
  "setCapabilities demoCapLib (demoCapCalls demoNoCaps)
     [BOUNDING, EFFECTIVE, INHERITABLE, PERMITTED, AMBIENT] (Some demoCapabilities)
     [''CAP_SETUID''] = (None, Some (demoNoCaps(BOUNDING := {10})))"
  by (simp add: setCapabilities_def demoCapCalls_def demoCapabilities_def capMap_def
      demo_findCap noCap_def caps_Set_def caps_Get_def demoNoCaps_def)

text \<open>
  Claim C1. Let the current process lack capability \<open>X\<close> in the set \<open>capType\<close>, and
  let the specification's own list for that set not name \<open>X\<close>. Then the set of that
  type handed to \<open>Apply\<close> does not hold \<open>X\<close>, whatever the keep list requests and
  in whatever order the sets are visited: a keep request adds a capability only where
  the current process already holds it.
\<close>

theorem setCapabilities_keep_grants_nothing:
  assumes applied: "setCapabilities lib calls types capabilities keepCaps = (err, Some caps)"
    and loaded: "Load_current calls = Inr currentCaps"
    and spec: "capabilities = Some c"
    and lacking: "\<not> caps_Get currentCaps capType X"
    and unlisted: "X \<notin> findCap lib (cap_List lib) ` set (capMap c capType)"
  shows "\<not> caps_Get caps capType X"
proof -
  from applied loaded spec
  have "setCapTypes lib currentCaps c keepCaps types (\<lambda>_. {}) = Inr caps"
    by (elim setCapabilities_applied) simp
  from setCapTypes_sets [OF this, of capType] lacking unlisted
  show ?thesis
    by (auto simp: caps_Get_def split: if_splits)
qed

theorem setCapabilities_keep_grants_nothing_witness:
  "setCapabilities demoCapLib (demoCapCalls demoNoCaps)
     [BOUNDING, EFFECTIVE, INHERITABLE, PERMITTED, AMBIENT] (Some demoCapabilities)
     [''CAP_SETUID''] = (None, Some (demoNoCaps(BOUNDING := {10})))
   \<and> Load_current (demoCapCalls demoNoCaps) = Inr demoNoCaps
   \<and> \<not> caps_Get demoNoCaps PERMITTED 7
   \<and> 7 \<notin> findCap demoCapLib (cap_List demoCapLib) ` set (capMap demoCapabilities PERMITTED)
   \<and> \<not> caps_Get (demoNoCaps(BOUNDING := {10})) PERMITTED 7"
proof -
  have h1: "Load_current (demoCapCalls demoNoCaps) = Inr demoNoCaps"
    by (simp add: demoCapCalls_def)
  have h2: "\<not> caps_Get demoNoCaps PERMITTED 7"
    by (simp add: caps_Get_def demoNoCaps_def)
  have h3: "7 \<notin> findCap demoCapLib (cap_List demoCapLib) ` set (capMap demoCapabilities PERMITTED)"
    by (simp add: capMap_def demoCapabilities_def)
  from setCapabilities_keep_grants_nothing [OF demo_setCapabilities h1 refl h2 h3]
    demo_setCapabilities h1 h2 h3
  show ?thesis by blast
qed

text \<open>
  Claim C2, as the code has it. The inheritable set handed to \<open>Apply\<close> holds no
  capability of the specification: it is exactly the set of the keep capabilities that
  the current process already holds in its own inheritable set. So it is empty when
  there is no keep capability, or when the current process holds none of them as
  inheritable.
\<close>

theorem setCapabilities_inheritable:
  assumes applied: "setCapabilities lib calls types capabilities keepCaps = (err, Some caps)"
    and loaded: "Load_current calls = Inr currentCaps"
    and visited: "INHERITABLE \<in> set types"
  shows "caps INHERITABLE = findCap lib (cap_List lib) ` set keepCaps \<inter> currentCaps INHERITABLE"
proof -
  from applied loaded obtain c where
    "setCapTypes lib currentCaps c keepCaps types (\<lambda>_. {}) = Inr caps"
    by (elim setCapabilities_applied) simp
  from setCapTypes_sets [OF this, of INHERITABLE] visited
  show ?thesis
    by (simp add: capMap_def)
qed

theorem setCapabilities_inheritable_witness:
  "setCapabilities demoCapLib (demoCapCalls demoNoCaps)
     [BOUNDING, EFFECTIVE, INHERITABLE, PERMITTED, AMBIENT] (Some demoCapabilities)
     [''CAP_SETUID''] = (None, Some (demoNoCaps(BOUNDING := {10})))
   \<and> Load_current (demoCapCalls demoNoCaps) = Inr demoNoCaps
   \<and> INHERITABLE \<in> set [BOUNDING, EFFECTIVE, INHERITABLE, PERMITTED, AMBIENT]
   \<and> (demoNoCaps(BOUNDING := {10})) INHERITABLE = {}"
proof -
  have h1: "Load_current (demoCapCalls demoNoCaps) = Inr demoNoCaps"
    by (simp add: demoCapCalls_def)
  have h2: "INHERITABLE \<in> set [BOUNDING, EFFECTIVE, INHERITABLE, PERMITTED, AMBIENT]"
    by simp
  from setCapabilities_inheritable [OF demo_setCapabilities h1 h2]
  have "(demoNoCaps(BOUNDING := {10})) INHERITABLE = {}"
    by (simp add: demoNoCaps_def)
  with demo_setCapabilities h1 h2 show ?thesis by blast
qed

text \<open>
  The claim as stated fails: a current process that holds \<open>CAP_SETUID\<close> (number 7) in
  its inheritable set, with \<open>CAP_SETUID\<close> requested as a keep capability, gets it in
  the inheritable set applied.
\<close>

theorem setCapabilities_inheritable_counterexample:
  "appliedSet
     (setCapabilities demoCapLib (demoCapCalls (demoNoCaps(INHERITABLE := {7})))
        [BOUNDING, EFFECTIVE, INHERITABLE, PERMITTED, AMBIENT] (Some demoCapabilities)
        [''CAP_SETUID''])
     INHERITABLE = Some {7}"
  by (simp add: appliedSet_def setCapabilities_def demoCapCalls_def demoCapabilities_def capMap_def
      demo_findCap noCap_def caps_Set_def caps_Get_def demoNoCaps_def)

section \<open>Entering the chroot\<close>

text \<open>
  Claim C4. When the root path was inspected, entered and made the root, and \<open>/\<close> was
  inspected after the chroot call, the chroot entry goes on to the later steps exactly
  when the device and inode recorded before the change of directory equal those of
  \<open>/\<close> after the chroot call. When either differs it ends the process with status 1, and
  nothing of the later steps is run.
\<close>

theorem chrootEntry_accepts_iff_same_identity:
  assumes "unix_Stat os rootPath w = Inr oldst"
    and "unix_Chdir os rootPath w = (None, w1)"
    and "unix_Chroot os rootPath w1 = (None, w2)"
    and "unix_Stat os ''/'' w2 = Inr newst"
  shows "chrootEntry os rootPath later w =
           (if st_Dev oldst = st_Dev newst \<and> st_Ino oldst = st_Ino newst
            then Inr (later w2)
            else Inl (Fatal ''unknown error chroot()ing into directory'' 1))"
  using assms by (simp add: chrootEntry_def)

theorem chrootEntry_accepts_iff_same_identity_witness:
  "unix_Stat (chrootOs True) ''/rootfs'' False = Inr (demoStat 100)
   \<and> unix_Chdir (chrootOs True) ''/rootfs'' False = (None, False)
   \<and> unix_Chroot (chrootOs True) ''/rootfs'' False = (None, True)
   \<and> unix_Stat (chrootOs True) ''/'' True = Inr (demoStat 200)
   \<and> chrootEntry (chrootOs True) ''/rootfs'' (\<lambda>w. ''later steps'') False
       = Inl (Fatal ''unknown error chroot()ing into directory'' 1)
   \<and> unix_Stat (chrootOs False) ''/'' True = Inr (demoStat 100)
   \<and> chrootEntry (chrootOs False) ''/rootfs'' (\<lambda>w. ''later steps'') False = Inr ''later steps''"
proof -
  have a: "unix_Stat (chrootOs s) ''/rootfs'' False = Inr (demoStat 100)"
    and b: "unix_Chdir (chrootOs s) ''/rootfs'' False = (None, False)"
    and c: "unix_Chroot (chrootOs s) ''/rootfs'' False = (None, True)"
    and d: "unix_Stat (chrootOs s) ''/'' True = Inr (demoStat (if s then 200 else 100))" for s
    by (simp_all add: chrootOs_def nullOs_def)
  from chrootEntry_accepts_iff_same_identity [OF a b c d, of True "\<lambda>w. ''later steps''"]
    chrootEntry_accepts_iff_same_identity [OF a b c d, of False "\<lambda>w. ''later steps''"]
    a [of True] b [of True] c [of True] d [of True] d [of False]
  show ?thesis by (simp add: demoStat_def)
qed

section \<open>The cleanup handle\<close>

lemma undoBinds_retry_shape:
  "undoBinds_retry os rootPath err2 retries w events = (err2', retries', w', events') \<Longrightarrow>
   retries \<le> 50 \<Longrightarrow>
   \<exists>rs. events' = events @ retryEvents rs \<and> retries' = retries + length rs \<and> retries' \<le> 50
        \<and> (\<forall>r \<in> set (butlast (err2 # rs)). busyResult r)
        \<and> err2' = last (err2 # rs) \<and> (busyResult err2' \<longrightarrow> retries' = 50)"
proof (induction os rootPath err2 retries w events rule: undoBinds_retry.induct)
  case (1 os rootPath err2 retries w events)
  show ?case
  proof (cases "(err2 = Some EBUSY \<or> err2 = Some EAGAIN) \<and> retries < 50")
    case False
    with "1.prems" have "err2' = err2" "retries' = retries" "events' = events"
      by (simp_all split: if_splits)
    with False "1.prems"(2) show ?thesis
      by (intro exI [of _ "[]"]) (auto simp: retryEvents_def busyResult_def)
  next
    case True
    let ?r = "fst (unix_Unmount os rootPath MNT_DETACH w)"
    let ?w = "snd (unix_Unmount os rootPath MNT_DETACH w)"
    from True "1.prems"(1) have
      rec: "undoBinds_retry os rootPath ?r (retries + 1) ?w (events @ [Slept 50, Unmounted ?r])
              = (err2', retries', w', events')"
      by (subst (asm) undoBinds_retry.simps) simp
    from True have le: "retries + 1 \<le> 50" by simp
    from "1.IH" [OF True rec le] obtain rs where
      rs: "events' = (events @ [Slept 50, Unmounted ?r]) @ retryEvents rs"
        "retries' = retries + 1 + length rs" "retries' \<le> 50"
        "\<forall>r \<in> set (butlast (?r # rs)). busyResult r"
        "err2' = last (?r # rs)" "busyResult err2' \<longrightarrow> retries' = 50"
      by blast
    from True have busy: "busyResult err2" by (simp add: busyResult_def)
    show ?thesis
      using rs busy
      by (intro exI [of _ "?r # rs"]) (auto simp: retryEvents_def)
  qed
qed

text \<open>
  Claim C9, as the code has it. The handle unmounts once, and again after a sleep of 50
  milliseconds for as long as the last result is \<open>EBUSY\<close> or \<open>EAGAIN\<close> and fewer than
  50 retries were made: at most 51 unmount calls, every result but the last one busy,
  and the last one busy only when the retries are used up. It returns the error that
  \<open>setupChrootBindMounts\<close> has recorded in \<open>err\<close> when there is one, and the result of the
  last unmount call otherwise. In particular, when the first three unmount calls fail
  with \<open>EBUSY\<close> and the fourth succeeds, the handle makes exactly four unmount calls,
  each retry after one sleep of 50 milliseconds, and returns the recorded \<open>err\<close>
  unchanged: success when no error was recorded.
\<close>

theorem undoBinds_retry_policy:
  "(\<exists>rs. rs \<noteq> [] \<and> length rs \<le> 51
        \<and> snd (snd (undoBinds os rootPath err w)) = Unmounted (hd rs) # retryEvents (tl rs)
        \<and> (\<forall>r \<in> set (butlast rs). busyResult r)
        \<and> (busyResult (last rs) \<longrightarrow> length rs = 51)
        \<and> fst (undoBinds os rootPath err w) =
            (case err of None \<Rightarrow> map_option Sys (last rs) | Some e \<Rightarrow> Some e))
   \<and> (unix_Unmount os rootPath MNT_DETACH w = (Some EBUSY, w1)
        \<and> unix_Unmount os rootPath MNT_DETACH w1 = (Some EBUSY, w2)
        \<and> unix_Unmount os rootPath MNT_DETACH w2 = (Some EBUSY, w3)
        \<and> unix_Unmount os rootPath MNT_DETACH w3 = (None, w4)
      \<longrightarrow> undoBinds os rootPath err w =
            (err, w4,
             [Unmounted (Some EBUSY), Slept 50, Unmounted (Some EBUSY), Slept 50,
              Unmounted (Some EBUSY), Slept 50, Unmounted None]))"
proof (intro conjI impI)
  obtain r0 w0 where first: "unix_Unmount os rootPath MNT_DETACH w = (r0, w0)"
    by (cases "unix_Unmount os rootPath MNT_DETACH w")
  show "\<exists>rs. rs \<noteq> [] \<and> length rs \<le> 51
        \<and> snd (snd (undoBinds os rootPath err w)) = Unmounted (hd rs) # retryEvents (tl rs)
        \<and> (\<forall>r \<in> set (butlast rs). busyResult r)
        \<and> (busyResult (last rs) \<longrightarrow> length rs = 51)
        \<and> fst (undoBinds os rootPath err w) =
            (case err of None \<Rightarrow> map_option Sys (last rs) | Some e \<Rightarrow> Some e)"
  proof (cases r0)
    case None
    with first show ?thesis
      by (intro exI [of _ "[None]"])
         (auto simp: undoBinds_def retryEvents_def busyResult_def split: option.splits)
  next
    case (Some e)
    obtain err2' retries' w' events' where
      run: "undoBinds_retry os rootPath (Some e) 0 w0 [Unmounted (Some e)] = (err2', retries', w', events')"
      by (cases "undoBinds_retry os rootPath (Some e) 0 w0 [Unmounted (Some e)]") auto
    from undoBinds_retry_shape [OF run] obtain rs where
      rs: "events' = [Unmounted (Some e)] @ retryEvents rs" "retries' = length rs" "retries' \<le> 50"
        "\<forall>r \<in> set (butlast (Some e # rs)). busyResult r"
        "err2' = last (Some e # rs)" "busyResult err2' \<longrightarrow> retries' = 50"
      by auto
    have res: "undoBinds os rootPath err w =
        (case err2' of None \<Rightarrow> err | Some e2 \<Rightarrow> if err = None then Some (Sys e2) else err,
         w', events')"
      using first Some run by (simp add: undoBinds_def split: option.splits)
    show ?thesis
      using rs res
      by (intro exI [of _ "Some e # rs"]) (auto split: option.splits)
  qed
next
  assume "unix_Unmount os rootPath MNT_DETACH w = (Some EBUSY, w1)
        \<and> unix_Unmount os rootPath MNT_DETACH w1 = (Some EBUSY, w2)
        \<and> unix_Unmount os rootPath MNT_DETACH w2 = (Some EBUSY, w3)
        \<and> unix_Unmount os rootPath MNT_DETACH w3 = (None, w4)"
  then show "undoBinds os rootPath err w =
            (err, w4,
             [Unmounted (Some EBUSY), Slept 50, Unmounted (Some EBUSY), Slept 50,
              Unmounted (Some EBUSY), Slept 50, Unmounted None])"
    by (simp add: undoBinds_def)
qed

theorem undoBinds_retry_policy_witness:
  "unix_Unmount scriptOs ''/rootfs'' MNT_DETACH [Some EBUSY, Some EBUSY, Some EBUSY, None]
     = (Some EBUSY, [Some EBUSY, Some EBUSY, None])
   \<and> unix_Unmount scriptOs ''/rootfs'' MNT_DETACH [Some EBUSY, Some EBUSY, None]
     = (Some EBUSY, [Some EBUSY, None])
   \<and> unix_Unmount scriptOs ''/rootfs'' MNT_DETACH [Some EBUSY, None] = (Some EBUSY, [None])
   \<and> unix_Unmount scriptOs ''/rootfs'' MNT_DETACH [None] = (None, [])
   \<and> undoBinds scriptOs ''/rootfs'' None [Some EBUSY, Some EBUSY, Some EBUSY, None] =
        (None, [],
         [Unmounted (Some EBUSY), Slept 50, Unmounted (Some EBUSY), Slept 50,
          Unmounted (Some EBUSY), Slept 50, Unmounted None])"
proof -
  have calls:
    "unix_Unmount scriptOs ''/rootfs'' MNT_DETACH [Some EBUSY, Some EBUSY, Some EBUSY, None]
       = (Some EBUSY, [Some EBUSY, Some EBUSY, None])
     \<and> unix_Unmount scriptOs ''/rootfs'' MNT_DETACH [Some EBUSY, Some EBUSY, None]
       = (Some EBUSY, [Some EBUSY, None])
     \<and> unix_Unmount scriptOs ''/rootfs'' MNT_DETACH [Some EBUSY, None] = (Some EBUSY, [None])
     \<and> unix_Unmount scriptOs ''/rootfs'' MNT_DETACH [None] = (None, [])"
    by (simp add: scriptOs_def)
  from undoBinds_retry_policy [of scriptOs "''/rootfs''" None
      "[Some EBUSY, Some EBUSY, Some EBUSY, None]" "[Some EBUSY, Some EBUSY, None]"
      "[Some EBUSY, None]" "[None]" "[]"] calls
  show ?thesis by blast
qed

text \<open>
  The claim as stated fails when the mount setup has recorded an error (here the one of
  line 793, for an empty directory that could not be created): three \<open>EBUSY\<close> and a
  success make four unmount calls, and the handle returns the recorded error, not
  success.
\<close>

theorem undoBinds_reports_success_counterexample:
  "undoBinds scriptOs ''/rootfs''
     (Some (Wrapped (SetupError ''error creating empty directory'' (Some EACCES))))
     [Some EBUSY, Some EBUSY, Some EBUSY, None] =
     (Some (Wrapped (SetupError ''error creating empty directory'' (Some EACCES))), [],
      [Unmounted (Some EBUSY), Slept 50, Unmounted (Some EBUSY), Slept 50,
       Unmounted (Some EBUSY), Slept 50, Unmounted None])"
  by (simp add: undoBinds_def scriptOs_def nullOs_def)

section \<open>Mount flags\<close>

lemma bit_set_word: "n < 64 \<Longrightarrow> bit (x OR (2 ^ k :: 64 word)) n = (bit x n \<or> (n = k))"
  by (auto simp: bit_or_iff bit_exp_iff)

lemma bit_clear_word: "n < 64 \<Longrightarrow> bit (x AND NOT (2 ^ k :: 64 word)) n = (bit x n \<and> n \<noteq> k)"
  by (auto simp: bit_and_iff bit_not_iff bit_exp_iff)

lemma bit_set_flags:
  assumes "n < 64"
  shows "bit (x OR MS_RDONLY) n = (bit x n \<or> n = 0)"
    and "bit (x OR MS_NOSUID) n = (bit x n \<or> n = 1)"
    and "bit (x OR MS_NODEV) n = (bit x n \<or> n = 2)"
    and "bit (x OR MS_NOEXEC) n = (bit x n \<or> n = 3)"
    and "bit (x OR ST_RDONLY) n = (bit x n \<or> n = 0)"
    and "bit (x OR ST_NOSUID) n = (bit x n \<or> n = 1)"
    and "bit (x OR ST_NODEV) n = (bit x n \<or> n = 2)"
    and "bit (x OR ST_NOEXEC) n = (bit x n \<or> n = 3)"
  using bit_set_word [OF assms, of x 0] bit_set_word [OF assms, of x 1]
    bit_set_word [OF assms, of x 2] bit_set_word [OF assms, of x 3]
  by (simp_all add: MS_RDONLY_def MS_NOSUID_def MS_NODEV_def MS_NOEXEC_def
      ST_RDONLY_def ST_NOSUID_def ST_NODEV_def ST_NOEXEC_def)

lemma bit_clear_flags:
  assumes "n < 64"
  shows "bit (x AND NOT MS_RDONLY) n = (bit x n \<and> n \<noteq> 0)"
    and "bit (x AND NOT MS_NOSUID) n = (bit x n \<and> n \<noteq> 1)"
    and "bit (x AND NOT MS_NODEV) n = (bit x n \<and> n \<noteq> 2)"
    and "bit (x AND NOT MS_NOEXEC) n = (bit x n \<and> n \<noteq> 3)"
    and "bit (x AND NOT ST_RDONLY) n = (bit x n \<and> n \<noteq> 0)"
    and "bit (x AND NOT ST_NOSUID) n = (bit x n \<and> n \<noteq> 1)"
    and "bit (x AND NOT ST_NODEV) n = (bit x n \<and> n \<noteq> 2)"
    and "bit (x AND NOT ST_NOEXEC) n = (bit x n \<and> n \<noteq> 3)"
  using bit_clear_word [OF assms, of x 0] bit_clear_word [OF assms, of x 1]
    bit_clear_word [OF assms, of x 2] bit_clear_word [OF assms, of x 3]
  by (simp_all add: MS_RDONLY_def MS_NOSUID_def MS_NODEV_def MS_NOEXEC_def
      ST_RDONLY_def ST_NOSUID_def ST_NODEV_def ST_NOEXEC_def)


lemma applyOption_bit:
  assumes n: "n < 64"
  shows "bit (fst (applyOption opt fl)) n = axisBits opt n (bit (fst fl) n)
       \<and> bit (snd (applyOption opt fl)) n = axisBits opt n (bit (snd fl) n)"
  using n
  by (simp add: applyOption_def Let_def bit_set_flags bit_clear_flags axisBits_def tokBit_def)


lemma axisSet_Cons:
  "on \<noteq> off \<Longrightarrow> axisSet on off b (opt # opts) = axisSet on off (tokBit on off opt b) opts"
  by (auto simp: axisSet_def lastToken_def tokBit_def find_append_cases split: option.splits)

lemma applyOptions_bit:
  assumes n: "n < 64"
  shows "bit (fst (applyOptions opts fl)) n =
           (if n = 2 then axisSet ''nodev'' ''dev'' (bit (fst fl) n) opts
            else if n = 3 then axisSet ''noexec'' ''exec'' (bit (fst fl) n) opts
            else if n = 1 then axisSet ''nosuid'' ''suid'' (bit (fst fl) n) opts
            else if n = 0 then axisSet ''ro'' ''rw'' (bit (fst fl) n) opts
            else bit (fst fl) n)
       \<and> bit (snd (applyOptions opts fl)) n =
           (if n = 2 then axisSet ''nodev'' ''dev'' (bit (snd fl) n) opts
            else if n = 3 then axisSet ''noexec'' ''exec'' (bit (snd fl) n) opts
            else if n = 1 then axisSet ''nosuid'' ''suid'' (bit (snd fl) n) opts
            else if n = 0 then axisSet ''ro'' ''rw'' (bit (snd fl) n) opts
            else bit (snd fl) n)"
proof (induction opts arbitrary: fl)
  case Nil
  show ?case by (simp add: axisSet_def lastToken_def)
next
  case (Cons opt opts)
  have step: "applyOptions (opt # opts) fl = applyOptions opts (applyOption opt fl)"
    by simp
  show ?case
    unfolding step
    using n by (simp add: Cons.IH applyOption_bit axisSet_Cons axisBits_def)
qed


lemma flag_test_bit:
  "(x AND MS_RDONLY \<noteq> 0) = bit x 0" "(x AND MS_NOSUID \<noteq> 0) = bit x 1"
  "(x AND MS_NODEV \<noteq> 0) = bit x 2" "(x AND MS_NOEXEC \<noteq> 0) = bit x 3"
  "(x AND ST_RDONLY \<noteq> 0) = bit x 0" "(x AND ST_NOSUID \<noteq> 0) = bit x 1"
  "(x AND ST_NODEV \<noteq> 0) = bit x 2" "(x AND ST_NOEXEC \<noteq> 0) = bit x 3"
  using and_exp_eq_0_iff_not_bit [of x 0] and_exp_eq_0_iff_not_bit [of x 1]
    and_exp_eq_0_iff_not_bit [of x 2] and_exp_eq_0_iff_not_bit [of x 3]
  by (simp_all add: MS_RDONLY_def MS_NOSUID_def MS_NODEV_def MS_NOEXEC_def
      ST_RDONLY_def ST_NOSUID_def ST_NODEV_def ST_NOEXEC_def)

lemma bindFlags_bits:
  "\<not> bit bindFlags 0" "\<not> bit bindFlags (Suc 0)" "bit bindFlags 2" "\<not> bit bindFlags 3"
  by (simp_all add: bindFlags_def commonFlags_def MS_BIND_def MS_REC_def MS_PRIVATE_def
      MS_NODEV_def bit_or_iff)

lemma mountFlags_bit:
  assumes n: "n < 64"
  shows "bit (fst (mountFlags opts)) n =
           (if n = 2 then axisSet ''nodev'' ''dev'' True opts
            else if n = 3 then axisSet ''noexec'' ''exec'' False opts
            else if n = 1 then axisSet ''nosuid'' ''suid'' False opts
            else if n = 0 then axisSet ''ro'' ''rw'' False opts
            else bit bindFlags n)"
    and "bit (snd (mountFlags opts)) n =
           (if n = 2 then axisSet ''nodev'' ''dev'' False opts
            else if n = 3 then axisSet ''noexec'' ''exec'' False opts
            else if n = 1 then axisSet ''nosuid'' ''suid'' False opts
            else if n = 0 then axisSet ''ro'' ''rw'' False opts
            else False)"
  using applyOptions_bit [OF n, of opts "(bindFlags, 0)"]
  by (auto simp: mountFlags_def bindFlags_bits)

text \<open>
  Claim C7. For each of the four axes, the bit of the axis is set in the request flags
  and in the expected flags exactly when the last token of the axis among the options
  is the setting one (\<open>nodev\<close>, \<open>noexec\<close>, \<open>nosuid\<close>, \<open>ro\<close>), whatever tokens came
  before; with no token of the axis the bit keeps its initial value (set for
  \<open>nodev\<close> in the request flags, clear otherwise). Two option lists with the same last
  token on every axis give the same pair of flag words.
\<close>

theorem mountFlags_last_token_wins:
  "(fst (mountFlags options) AND MS_NODEV \<noteq> 0) = axisSet ''nodev'' ''dev'' True options
   \<and> (snd (mountFlags options) AND ST_NODEV \<noteq> 0) = axisSet ''nodev'' ''dev'' False options
   \<and> (fst (mountFlags options) AND MS_NOEXEC \<noteq> 0) = axisSet ''noexec'' ''exec'' False options
   \<and> (snd (mountFlags options) AND ST_NOEXEC \<noteq> 0) = axisSet ''noexec'' ''exec'' False options
   \<and> (fst (mountFlags options) AND MS_NOSUID \<noteq> 0) = axisSet ''nosuid'' ''suid'' False options
   \<and> (snd (mountFlags options) AND ST_NOSUID \<noteq> 0) = axisSet ''nosuid'' ''suid'' False options
   \<and> (fst (mountFlags options) AND MS_RDONLY \<noteq> 0) = axisSet ''ro'' ''rw'' False options
   \<and> (snd (mountFlags options) AND ST_RDONLY \<noteq> 0) = axisSet ''ro'' ''rw'' False options
   \<and> (lastToken ''nodev'' ''dev'' options = lastToken ''nodev'' ''dev'' options'
        \<and> lastToken ''noexec'' ''exec'' options = lastToken ''noexec'' ''exec'' options'
        \<and> lastToken ''nosuid'' ''suid'' options = lastToken ''nosuid'' ''suid'' options'
        \<and> lastToken ''ro'' ''rw'' options = lastToken ''ro'' ''rw'' options'
      \<longrightarrow> mountFlags options = mountFlags options')"
proof -
  have bits: "(fst (mountFlags options) AND MS_NODEV \<noteq> 0) = axisSet ''nodev'' ''dev'' True options"
    "(snd (mountFlags options) AND ST_NODEV \<noteq> 0) = axisSet ''nodev'' ''dev'' False options"
    "(fst (mountFlags options) AND MS_NOEXEC \<noteq> 0) = axisSet ''noexec'' ''exec'' False options"
    "(snd (mountFlags options) AND ST_NOEXEC \<noteq> 0) = axisSet ''noexec'' ''exec'' False options"
    "(fst (mountFlags options) AND MS_NOSUID \<noteq> 0) = axisSet ''nosuid'' ''suid'' False options"
    "(snd (mountFlags options) AND ST_NOSUID \<noteq> 0) = axisSet ''nosuid'' ''suid'' False options"
    "(fst (mountFlags options) AND MS_RDONLY \<noteq> 0) = axisSet ''ro'' ''rw'' False options"
    "(snd (mountFlags options) AND ST_RDONLY \<noteq> 0) = axisSet ''ro'' ''rw'' False options"
    by (simp_all add: flag_test_bit mountFlags_bit)
  have same: "mountFlags options = mountFlags options'"
    if eq: "lastToken ''nodev'' ''dev'' options = lastToken ''nodev'' ''dev'' options'"
      "lastToken ''noexec'' ''exec'' options = lastToken ''noexec'' ''exec'' options'"
      "lastToken ''nosuid'' ''suid'' options = lastToken ''nosuid'' ''suid'' options'"
      "lastToken ''ro'' ''rw'' options = lastToken ''ro'' ''rw'' options'"
  proof (rule prod_eqI; rule bit_word_eqI)
    fix n assume "n < LENGTH(64)"
    then have n: "n < 64" by simp
    show "bit (fst (mountFlags options)) n = bit (fst (mountFlags options')) n"
      by (simp add: mountFlags_bit [OF n] axisSet_def eq)
    show "bit (snd (mountFlags options)) n = bit (snd (mountFlags options')) n"
      by (simp add: mountFlags_bit [OF n] axisSet_def eq)
  qed
  from bits same show ?thesis by blast
qed

theorem mountFlags_last_token_wins_witness:
  "lastToken ''nodev'' ''dev'' [''ro'', ''nosuid'', ''dev'', ''rw''] = lastToken ''nodev'' ''dev'' [''dev'', ''rw'', ''nosuid'']
   \<and> lastToken ''noexec'' ''exec'' [''ro'', ''nosuid'', ''dev'', ''rw''] = lastToken ''noexec'' ''exec'' [''dev'', ''rw'', ''nosuid'']
   \<and> lastToken ''nosuid'' ''suid'' [''ro'', ''nosuid'', ''dev'', ''rw''] = lastToken ''nosuid'' ''suid'' [''dev'', ''rw'', ''nosuid'']
   \<and> lastToken ''ro'' ''rw'' [''ro'', ''nosuid'', ''dev'', ''rw''] = lastToken ''ro'' ''rw'' [''dev'', ''rw'', ''nosuid'']
   \<and> mountFlags [''ro'', ''nosuid'', ''dev'', ''rw''] = mountFlags [''dev'', ''rw'', ''nosuid'']
   \<and> fst (mountFlags [''ro'', ''nosuid'', ''dev'', ''rw'']) AND MS_RDONLY = 0
   \<and> fst (mountFlags [''ro'', ''nosuid'', ''dev'', ''rw'']) AND MS_NOSUID \<noteq> 0"
proof -
  have toks:
    "lastToken ''nodev'' ''dev'' [''ro'', ''nosuid'', ''dev'', ''rw''] = lastToken ''nodev'' ''dev'' [''dev'', ''rw'', ''nosuid'']
     \<and> lastToken ''noexec'' ''exec'' [''ro'', ''nosuid'', ''dev'', ''rw''] = lastToken ''noexec'' ''exec'' [''dev'', ''rw'', ''nosuid'']
     \<and> lastToken ''nosuid'' ''suid'' [''ro'', ''nosuid'', ''dev'', ''rw''] = lastToken ''nosuid'' ''suid'' [''dev'', ''rw'', ''nosuid'']
     \<and> lastToken ''ro'' ''rw'' [''ro'', ''nosuid'', ''dev'', ''rw''] = lastToken ''ro'' ''rw'' [''dev'', ''rw'', ''nosuid'']"
    by (simp add: lastToken_def)
  have sets: "\<not> axisSet ''ro'' ''rw'' False [''ro'', ''nosuid'', ''dev'', ''rw'']"
    "axisSet ''nosuid'' ''suid'' False [''ro'', ''nosuid'', ''dev'', ''rw'']"
    by (simp_all add: axisSet_def lastToken_def)
  from mountFlags_last_token_wins [of "[''ro'', ''nosuid'', ''dev'', ''rw'']" "[''dev'', ''rw'', ''nosuid'']"]
    toks sets
  show ?thesis by blast
qed

section \<open>The generic mount loop\<close>

lemma mountEntry_skipped:
  "skippedDestination (m_Destination m) \<or> skippedType (m_Type m) \<Longrightarrow>
     mountEntry os rootPath m w = (None, w, [])"
  by (auto simp: mountEntry_def)

lemma mountEntry_calls:
  "mountEntry os rootPath m w = (r, w', calls) \<Longrightarrow> calls \<noteq> [] \<Longrightarrow>
     \<not> skippedDestination (m_Destination m) \<and> \<not> skippedType (m_Type m)"
  using mountEntry_skipped [of m os rootPath w] by auto

lemma mountLoop_log:
  "mountLoop os rootPath mounts w = (r, w', log) \<Longrightarrow> (m, c) \<in> set log \<Longrightarrow>
     m \<in> set mounts \<and> \<not> skippedDestination (m_Destination m) \<and> \<not> skippedType (m_Type m)"
proof (induction mounts arbitrary: w r w' log)
  case Nil
  then show ?case by simp
next
  case (Cons m0 mounts)
  obtain r0 w0 calls where e: "mountEntry os rootPath m0 w = (r0, w0, calls)"
    by (cases "mountEntry os rootPath m0 w") auto
  show ?case
  proof (cases r0)
    case (Some ret)
    with Cons.prems e have "log = map (Pair m0) calls" by simp
    with Cons.prems(2) have "m = m0" "calls \<noteq> []" by auto
    with mountEntry_calls [OF e] show ?thesis by simp
  next
    case None
    obtain r1 w1 later where l: "mountLoop os rootPath mounts w0 = (r1, w1, later)"
      by (cases "mountLoop os rootPath mounts w0") auto
    with Cons.prems e None have log: "log = map (Pair m0) calls @ later" by simp
    from Cons.prems(2) log consider "(m, c) \<in> set (map (Pair m0) calls)" | "(m, c) \<in> set later"
      by auto
    then show ?thesis
    proof cases
      case 1
      then have "m = m0" "calls \<noteq> []" by auto
      with mountEntry_calls [OF e] show ?thesis by simp
    next
      case 2
      from Cons.IH [OF l 2] show ?thesis by simp
    qed
  qed
qed

lemma skipped_words:
  "skippedDestination d =
     (d \<in> {''/dev'', ''/proc'', ''/sys''} \<or> HasPrefix d ''/dev/'' \<or> HasPrefix d ''/proc/''
      \<or> HasPrefix d ''/sys/'')"
  "skippedType t = (t \<notin> {''bind'', ''tmpfs'', ''overlay''})"
  by (auto simp: skippedDestination_def skippedType_def)

text \<open>
  Claim C6. The loop body makes no mount call and changes nothing for an entry whose
  destination is \<open>/dev\<close>, \<open>/proc\<close> or \<open>/sys\<close> or starts with one of them followed
  by a slash, or whose type is not \<open>bind\<close>, \<open>tmpfs\<close> or \<open>overlay\<close>. Every mount
  call the loop makes is made in the turn of an entry of the list that passes both
  filters.
\<close>

theorem mountLoop_mounts_only_unfiltered:
  "((m_Destination m \<in> {''/dev'', ''/proc'', ''/sys''}
       \<or> HasPrefix (m_Destination m) ''/dev/'' \<or> HasPrefix (m_Destination m) ''/proc/''
       \<or> HasPrefix (m_Destination m) ''/sys/''
       \<or> m_Type m \<notin> {''bind'', ''tmpfs'', ''overlay''})
      \<longrightarrow> mountEntry os rootPath m w = (None, w, []))
   \<and> (\<forall>(m', c) \<in> set (snd (snd (mountLoop os rootPath mounts w))).
         m' \<in> set mounts
       \<and> m_Destination m' \<notin> {''/dev'', ''/proc'', ''/sys''}
       \<and> \<not> HasPrefix (m_Destination m') ''/dev/'' \<and> \<not> HasPrefix (m_Destination m') ''/proc/''
       \<and> \<not> HasPrefix (m_Destination m') ''/sys/''
       \<and> m_Type m' \<in> {''bind'', ''tmpfs'', ''overlay''})"
proof (intro conjI impI)
  assume "m_Destination m \<in> {''/dev'', ''/proc'', ''/sys''}
       \<or> HasPrefix (m_Destination m) ''/dev/'' \<or> HasPrefix (m_Destination m) ''/proc/''
       \<or> HasPrefix (m_Destination m) ''/sys/''
       \<or> m_Type m \<notin> {''bind'', ''tmpfs'', ''overlay''}"
  then have "skippedDestination (m_Destination m) \<or> skippedType (m_Type m)"
    unfolding skipped_words by blast
  then show "mountEntry os rootPath m w = (None, w, [])"
    by (rule mountEntry_skipped)
next
  obtain r w' log where l: "mountLoop os rootPath mounts w = (r, w', log)"
    by (cases "mountLoop os rootPath mounts w") auto
  have "m' \<in> set mounts \<and> \<not> skippedDestination (m_Destination m') \<and> \<not> skippedType (m_Type m')"
    if "(m', c) \<in> set log" for m' c
    using mountLoop_log [OF l that] .
  then show "\<forall>(m', c) \<in> set (snd (snd (mountLoop os rootPath mounts w))).
         m' \<in> set mounts
       \<and> m_Destination m' \<notin> {''/dev'', ''/proc'', ''/sys''}
       \<and> \<not> HasPrefix (m_Destination m') ''/dev/'' \<and> \<not> HasPrefix (m_Destination m') ''/proc/''
       \<and> \<not> HasPrefix (m_Destination m') ''/sys/''
       \<and> m_Type m' \<in> {''bind'', ''tmpfs'', ''overlay''}"
    unfolding l skipped_words by auto
qed

lemma demo_mountLoop:
  "mountLoop demoOs ''/rootfs'' demoMounts [] =
     (None, [''/rootfs/data''],
      [(demoMounts ! 1, UnixMount ''/host/data'' ''/rootfs/data'' [] 0x45005 [])])"
  by (simp add: demoMounts_def mountEntry_def skippedDestination_def skippedType_def HasPrefix_def
      resolveTarget_def createTarget_def mountAndVerify_def mountFlags_def applyOption_def
      doMount_def demoOs_def nullOs_def demoInfo_def Let_def bindFlags_def commonFlags_def
      MS_BIND_def MS_REC_def MS_PRIVATE_def MS_NODEV_def MS_RDONLY_def ST_RDONLY_def)

theorem mountLoop_mounts_only_unfiltered_witness:
  "HasPrefix (m_Destination (demoMounts ! 0)) ''/dev/''
   \<and> mountEntry demoOs ''/rootfs'' (demoMounts ! 0) [] = (None, [], [])
   \<and> m_Type (demoMounts ! 2) \<notin> {''bind'', ''tmpfs'', ''overlay''}
   \<and> mountEntry demoOs ''/rootfs'' (demoMounts ! 2) [] = (None, [], [])
   \<and> snd (snd (mountLoop demoOs ''/rootfs'' demoMounts []))
        = [(demoMounts ! 1, UnixMount ''/host/data'' ''/rootfs/data'' [] 0x45005 [])]
   \<and> demoMounts ! 1 \<in> set demoMounts
   \<and> m_Destination (demoMounts ! 1) = ''/data''
   \<and> m_Type (demoMounts ! 1) = ''bind''"
proof -
  have p0: "HasPrefix (m_Destination (demoMounts ! 0)) ''/dev/''"
    and p2: "m_Type (demoMounts ! 2) \<notin> {''bind'', ''tmpfs'', ''overlay''}"
    by (simp_all add: demoMounts_def HasPrefix_def)
  from mountLoop_mounts_only_unfiltered [where m = "demoMounts ! 0" and os = demoOs
      and rootPath = "''/rootfs''" and w = "[]" and mounts = demoMounts] p0
  have e0: "mountEntry demoOs ''/rootfs'' (demoMounts ! 0) [] = (None, [], [])" by blast
  from mountLoop_mounts_only_unfiltered [where m = "demoMounts ! 2" and os = demoOs
      and rootPath = "''/rootfs''" and w = "[]" and mounts = demoMounts] p2
  have e2: "mountEntry demoOs ''/rootfs'' (demoMounts ! 2) [] = (None, [], [])" by blast
  have l: "snd (snd (mountLoop demoOs ''/rootfs'' demoMounts []))
        = [(demoMounts ! 1, UnixMount ''/host/data'' ''/rootfs/data'' [] 0x45005 [])]"
    by (simp add: demo_mountLoop)
  from mountLoop_mounts_only_unfiltered [where m = "demoMounts ! 0" and os = demoOs
      and rootPath = "''/rootfs''" and w = "[]" and mounts = demoMounts] l
  have "demoMounts ! 1 \<in> set demoMounts" by simp
  moreover have "m_Destination (demoMounts ! 1) = ''/data''" "m_Type (demoMounts ! 1) = ''bind''"
    by (simp_all add: demoMounts_def)
  ultimately show ?thesis using p0 e0 p2 e2 l by blast
qed

section \<open>Read-only paths\<close>

lemma readonlyPath_settled:
  "settled os rootPath roPath w \<Longrightarrow> readonlyPath os rootPath roPath w = (None, w, [])"
  by (auto simp: settled_def readonlyPath_def Let_def split: sum.splits)

lemma readonlyLoop_settled:
  "\<forall>roPath \<in> set roPaths. settled os rootPath roPath w \<Longrightarrow>
     readonlyLoop os rootPath roPaths w = (None, w, [])"
  by (induction roPaths) (simp_all add: readonlyPath_settled)

lemma remountReadOnly_preserves:
  assumes step: "\<And>c w. P w \<Longrightarrow> P (snd (doMount os c w))"
    and run: "remountReadOnly os target' w calls = (r, w', calls')"
    and start: "P w"
  shows "P w'"
proof -
  let ?c = "UnixMount target' target' '''' (roFlags OR MS_BIND OR MS_REMOUNT) ''''"
  from run have "w' = w \<or> w' = snd (doMount os ?c w)"
    by (auto simp: remountReadOnly_def Let_def split: sum.splits if_splits prod.splits option.splits)
  with start step [OF start, of ?c] show ?thesis by auto
qed

lemma readonlyPath_preserves:
  assumes step: "\<And>c w. P w \<Longrightarrow> P (snd (doMount os c w))"
    and run: "readonlyPath os rootPath roPath w = (r, w', calls)"
    and start: "P w"
  shows "P w'"
proof -
  let ?r = "filepath_Join os rootPath roPath"
  show ?thesis
  proof (cases "filepath_EvalSymlinks os ?r w")
    case (Inl e)
    with run have "w' = w" by (auto simp: readonlyPath_def Let_def split: if_splits)
    with start show ?thesis by simp
  next
    case (Inr target')
    let ?bind = "UnixMount target' target' '''' (roFlags OR MS_BIND OR MS_REC) ''''"
    from step [OF start, of ?bind] have mid: "P (snd (doMount os ?bind w))" .
    from run Inr consider "w' = w" | "w' = snd (doMount os ?bind w)"
      | "remountReadOnly os target' (snd (doMount os ?bind w)) [?bind] = (r, w', calls)"
      by (auto simp: readonlyPath_def Let_def split: sum.splits if_splits prod.splits option.splits)
    then show ?thesis
    proof cases
      case 1 with start show ?thesis by simp
    next
      case 2 with mid show ?thesis by simp
    next
      case 3 from remountReadOnly_preserves [of P os, OF step 3 mid] show ?thesis .
    qed
  qed
qed

lemma readonlyLoop_preserves:
  assumes step: "\<And>c w. P w \<Longrightarrow> P (snd (doMount os c w))"
  shows "readonlyLoop os rootPath roPaths w = (r, w', calls) \<Longrightarrow> P w \<Longrightarrow> P w'"
proof (induction roPaths arbitrary: w r w' calls)
  case Nil
  then show ?case by simp
next
  case (Cons roPath roPaths)
  obtain r0 w0 c0 where p: "readonlyPath os rootPath roPath w = (r0, w0, c0)"
    by (cases "readonlyPath os rootPath roPath w") auto
  from readonlyPath_preserves [of P os, OF step p Cons.prems(2)] have P0: "P w0" .
  show ?case
  proof (cases r0)
    case (Some a)
    with Cons.prems(1) p have "w' = w0" by simp
    with P0 show ?thesis by simp
  next
    case None
    obtain r1 w1 c1 where l: "readonlyLoop os rootPath roPaths w0 = (r1, w1, c1)"
      by (cases "readonlyLoop os rootPath roPaths w0") auto
    with Cons.prems(1) p None have "w' = w1" by simp
    with Cons.IH [OF l P0] show ?thesis by simp
  qed
qed

lemma remountReadOnly_verified:
  assumes run: "remountReadOnly os target' w calls = (None, w', calls')"
  shows "\<exists>fsFlags. unix_Statfs os target' w' = Inr fsFlags \<and> fsFlags AND ST_RDONLY \<noteq> 0"
  using run
  by (auto simp: remountReadOnly_def Let_def split: sum.splits if_splits prod.splits option.splits)

lemma readonlyPath_establishes:
  assumes q: "quiescent os rootPath roPaths"
    and run: "readonlyPath os rootPath roPath w = (None, w', calls)"
  shows "settled os rootPath roPath w'"
proof -
  let ?r = "filepath_Join os rootPath roPath"
  from q have resolve: "filepath_EvalSymlinks os p (snd (doMount os c w0)) = filepath_EvalSymlinks os p w0"
    for p c w0
    by (simp add: quiescent_def)
  show ?thesis
  proof (cases "filepath_EvalSymlinks os ?r w")
    case (Inl e)
    with run have "w' = w" "isNotExist e"
      by (auto simp: readonlyPath_def Let_def split: if_splits)
    with Inl show ?thesis by (simp add: settled_def)
  next
    case target: (Inr target')
    show ?thesis
    proof (cases "unix_Statfs os target' w")
      case (Inl e)
      with run target have "w' = w" "isNotExist e"
        by (auto simp: readonlyPath_def Let_def split: if_splits)
      with Inl target show ?thesis by (simp add: settled_def)
    next
      case flags: (Inr fsFlags)
      show ?thesis
      proof (cases "fsFlags AND ST_RDONLY \<noteq> 0")
        case True
        with run target flags have "w' = w"
          by (auto simp: readonlyPath_def Let_def)
        with True target flags show ?thesis by (simp add: settled_def)
      next
        case False
        let ?bind = "UnixMount target' target' '''' (roFlags OR MS_BIND OR MS_REC) ''''"
        obtain r1 w1 where m: "doMount os ?bind w = (r1, w1)"
          by (cases "doMount os ?bind w")
        from q flags m have noent: "r1 = Some e \<Longrightarrow> \<not> isNotExist e" for e
          unfolding quiescent_def by (metis fst_conv)
        from run target flags False m noent
        have r1: "r1 = None" and rem: "remountReadOnly os target' w1 [?bind] = (None, w', calls)"
          by (auto simp: readonlyPath_def Let_def split: option.splits if_splits)
        from remountReadOnly_verified [OF rem] obtain f2 where
          f2: "unix_Statfs os target' w' = Inr f2" "f2 AND ST_RDONLY \<noteq> 0" by blast
        have "filepath_EvalSymlinks os ?r w1 = Inr target'"
          using resolve [of ?r ?bind w] m target by simp
        moreover have "filepath_EvalSymlinks os ?r w' = filepath_EvalSymlinks os ?r w1"
          by (rule remountReadOnly_preserves
                [of "\<lambda>x. filepath_EvalSymlinks os ?r x = filepath_EvalSymlinks os ?r w1" os, OF _ rem])
             (simp_all add: resolve)
        ultimately show ?thesis using f2 by (simp add: settled_def)
      qed
    qed
  qed
qed

lemma readonlyLoop_establishes:
  assumes q: "quiescent os rootPath allPaths"
  shows "readonlyLoop os rootPath roPaths w = (None, w', calls) \<Longrightarrow> set roPaths \<subseteq> set allPaths \<Longrightarrow>
         \<forall>roPath \<in> set roPaths. settled os rootPath roPath w'"
proof (induction roPaths arbitrary: w w' calls)
  case Nil
  then show ?case by simp
next
  case (Cons roPath roPaths)
  obtain r0 w0 c0 where p: "readonlyPath os rootPath roPath w = (r0, w0, c0)"
    by (cases "readonlyPath os rootPath roPath w") auto
  obtain r1 w1 c1 where l: "readonlyLoop os rootPath roPaths w0 = (r1, w1, c1)"
    by (cases "readonlyLoop os rootPath roPaths w0") auto
  from Cons.prems(1) p l have r0: "r0 = None" and r1: "r1 = None" and w1: "w1 = w'"
    by (auto split: option.splits)
  from readonlyPath_establishes [OF q] p r0 have s0: "settled os rootPath roPath w0" by simp
  from Cons.prems(2) have mem: "roPath \<in> set allPaths" by simp
  have keep: "settled os rootPath roPath x \<Longrightarrow> settled os rootPath roPath (snd (doMount os c x))" for c x
    using q mem unfolding quiescent_def by blast
  from readonlyLoop_preserves [of "settled os rootPath roPath" os, OF keep l s0] w1
  have "settled os rootPath roPath w'" by simp
  moreover from Cons.IH [of w0 w' c1] l r1 w1 Cons.prems(2)
  have "\<forall>p \<in> set roPaths. settled os rootPath p w'" by simp
  ultimately show ?case by simp
qed

text \<open>
  Claim C8. A path that resolves to a file system already flagged read-only when the
  loop body inspects it gets no mount call, and the state is left as it is. A pass over
  paths that are all settled makes no mount call. Hence, on a file system that is left
  alone but for the loop's own mount calls, a second pass over the same paths after a
  first pass that returned no error makes no mount call at all.
\<close>

theorem readonlyLoop_idempotent:
  "(filepath_EvalSymlinks os (filepath_Join os rootPath roPath) w = Inr target'
      \<and> unix_Statfs os target' w = Inr fsFlags \<and> fsFlags AND ST_RDONLY \<noteq> 0
     \<longrightarrow> readonlyPath os rootPath roPath w = (None, w, []))
   \<and> ((\<forall>p \<in> set roPaths. settled os rootPath p w)
     \<longrightarrow> readonlyLoop os rootPath roPaths w = (None, w, []))
   \<and> (quiescent os rootPath roPaths \<and> readonlyLoop os rootPath roPaths w = (None, w1, calls)
     \<longrightarrow> readonlyLoop os rootPath roPaths w1 = (None, w1, []))"
proof (intro conjI impI)
  assume "filepath_EvalSymlinks os (filepath_Join os rootPath roPath) w = Inr target'
      \<and> unix_Statfs os target' w = Inr fsFlags \<and> fsFlags AND ST_RDONLY \<noteq> 0"
  then have "settled os rootPath roPath w" by (simp add: settled_def)
  then show "readonlyPath os rootPath roPath w = (None, w, [])"
    by (rule readonlyPath_settled)
next
  assume "\<forall>p \<in> set roPaths. settled os rootPath p w"
  then show "readonlyLoop os rootPath roPaths w = (None, w, [])"
    by (rule readonlyLoop_settled)
next
  assume a: "quiescent os rootPath roPaths \<and> readonlyLoop os rootPath roPaths w = (None, w1, calls)"
  then have "\<forall>p \<in> set roPaths. settled os rootPath p w1"
    using readonlyLoop_establishes [of os rootPath roPaths roPaths w w1 calls] by simp
  then show "readonlyLoop os rootPath roPaths w1 = (None, w1, [])"
    by (rule readonlyLoop_settled)
qed

lemma demoOs_quiescent: "quiescent demoOs rootPath roPaths"
  unfolding quiescent_def
proof (intro allI conjI ballI impI)
  fix c w p
  show "filepath_EvalSymlinks demoOs p (snd (doMount demoOs c w)) = filepath_EvalSymlinks demoOs p w"
    by (simp add: demoOs_def nullOs_def)
next
  fix c w roPath
  assume "settled demoOs rootPath roPath w"
  then show "settled demoOs rootPath roPath (snd (doMount demoOs c w))"
    by (cases c) (auto simp: settled_def demoOs_def nullOs_def doMount_def split: if_splits)
next
  fix c w source target' fstype flags data' fsFlags e
  assume "c = UnixMount source target' fstype flags data'
            \<and> unix_Statfs demoOs target' w = Inr fsFlags \<and> fst (doMount demoOs c w) = Some e"
  moreover have "fst (doMount demoOs c w) = None"
    by (cases c) (simp_all add: demoOs_def nullOs_def doMount_def)
  ultimately show "\<not> isNotExist e"
    by simp
qed

lemma demo_flags: "roFlags OR MS_BIND OR MS_REC = 0x500F" "(0x500F :: 64 word) AND MS_RDONLY \<noteq> 0"
  "ST_RDONLY AND ST_RDONLY \<noteq> 0" "(0 :: 64 word) AND ST_RDONLY = 0" "ST_RDONLY \<noteq> 0"
  by (simp_all add: roFlags_def MS_NODEV_def MS_NOEXEC_def MS_NOSUID_def MS_RDONLY_def MS_BIND_def
      MS_REC_def ST_RDONLY_def)

lemma demo_first_pass:
  "readonlyLoop demoOs ''/rootfs'' [''/proc/sys'', ''/missing'', ''/proc/bus''] [] =
     (None, [''/rootfs/proc/bus'', ''/rootfs/proc/sys''],
      [UnixMount ''/rootfs/proc/sys'' ''/rootfs/proc/sys'' [] 0x500F [],
       UnixMount ''/rootfs/proc/bus'' ''/rootfs/proc/bus'' [] 0x500F []])"
  by (simp add: readonlyPath_def remountReadOnly_def doMount_def demoOs_def nullOs_def Let_def
      isNotExist_def demo_flags)

theorem readonlyLoop_idempotent_witness:
  "filepath_EvalSymlinks demoOs (filepath_Join demoOs ''/rootfs'' ''/proc/sys'') [''/rootfs/proc/sys'']
     = Inr ''/rootfs/proc/sys''
   \<and> unix_Statfs demoOs ''/rootfs/proc/sys'' [''/rootfs/proc/sys''] = Inr ST_RDONLY
   \<and> ST_RDONLY AND ST_RDONLY \<noteq> 0
   \<and> readonlyPath demoOs ''/rootfs'' ''/proc/sys'' [''/rootfs/proc/sys'']
       = (None, [''/rootfs/proc/sys''], [])
   \<and> quiescent demoOs ''/rootfs'' [''/proc/sys'', ''/missing'', ''/proc/bus'']
   \<and> readonlyLoop demoOs ''/rootfs'' [''/proc/sys'', ''/missing'', ''/proc/bus''] [] =
       (None, [''/rootfs/proc/bus'', ''/rootfs/proc/sys''],
        [UnixMount ''/rootfs/proc/sys'' ''/rootfs/proc/sys'' [] 0x500F [],
         UnixMount ''/rootfs/proc/bus'' ''/rootfs/proc/bus'' [] 0x500F []])
   \<and> readonlyLoop demoOs ''/rootfs'' [''/proc/sys'', ''/missing'', ''/proc/bus'']
         [''/rootfs/proc/bus'', ''/rootfs/proc/sys'']
       = (None, [''/rootfs/proc/bus'', ''/rootfs/proc/sys''], [])"
proof -
  have a: "filepath_EvalSymlinks demoOs (filepath_Join demoOs ''/rootfs'' ''/proc/sys'')
             [''/rootfs/proc/sys''] = Inr ''/rootfs/proc/sys''"
    and b: "unix_Statfs demoOs ''/rootfs/proc/sys'' [''/rootfs/proc/sys''] = Inr ST_RDONLY"
    by (simp_all add: demoOs_def nullOs_def)
  note c = demo_flags(3)
  note q = demoOs_quiescent [of "''/rootfs''" "[''/proc/sys'', ''/missing'', ''/proc/bus'']"]
  note first = demo_first_pass
  from readonlyLoop_idempotent [of demoOs "''/rootfs''" "''/proc/sys''" "[''/rootfs/proc/sys'']"
      "''/rootfs/proc/sys''" ST_RDONLY "[''/proc/sys'', ''/missing'', ''/proc/bus'']"
      "[''/rootfs/proc/bus'', ''/rootfs/proc/sys'']"
      "[UnixMount ''/rootfs/proc/sys'' ''/rootfs/proc/sys'' [] 0x500F [],
        UnixMount ''/rootfs/proc/bus'' ''/rootfs/proc/bus'' [] 0x500F []]"]
    a b c q
  have "readonlyPath demoOs ''/rootfs'' ''/proc/sys'' [''/rootfs/proc/sys'']
       = (None, [''/rootfs/proc/sys''], [])" by blast
  moreover
  from readonlyLoop_idempotent [of demoOs "''/rootfs''" "''/proc/sys''" "[]"
      "''/rootfs/proc/sys''" ST_RDONLY "[''/proc/sys'', ''/missing'', ''/proc/bus'']"
      "[''/rootfs/proc/bus'', ''/rootfs/proc/sys'']"
      "[UnixMount ''/rootfs/proc/sys'' ''/rootfs/proc/sys'' [] 0x500F [],
        UnixMount ''/rootfs/proc/bus'' ''/rootfs/proc/bus'' [] 0x500F []]"]
    q first
  have "readonlyLoop demoOs ''/rootfs'' [''/proc/sys'', ''/missing'', ''/proc/bus'']
         [''/rootfs/proc/bus'', ''/rootfs/proc/sys'']
       = (None, [''/rootfs/proc/bus'', ''/rootfs/proc/sys''], [])" by blast
  ultimately show ?thesis using a b c q first by blast
qed

section \<open>Masked paths\<close>

lemma others_test_nonzero: "(x AND S_IROTH) OR S_IXOTH \<noteq> 0"
proof
  assume zero: "(x AND S_IROTH) OR S_IXOTH = 0"
  have "bit ((x AND S_IROTH) OR S_IXOTH) 0"
    by (simp add: bit_or_iff S_IXOTH_def)
  with zero show False by simp
qed

lemma isAccessible_True: "isAccessible stat' gidMappings uidMappings"
  by (simp add: isAccessible_def Let_def others_test_nonzero)

lemma hasContentNames_hasEntries: "hasContentNames names = hasEntries names"
  by (induction names) (auto simp: hasEntries_def)

lemma isDevNull_nullDevice:
  "isDevNull os info w = nullDevice (unix_Stat os ''/dev/null'' w) info"
  by (simp add: isDevNull_def nullDevice_def split: sum.splits)

lemma mask_flag_values:
  "maskFlags = 0x100F" "0x100F OR MS_REMOUNT = 0x102F"
  "MS_BIND OR MS_RDONLY OR MS_PRIVATE = 0x41001"
  by (simp_all add: maskFlags_def MS_BIND_def MS_NOSUID_def MS_NODEV_def MS_NOEXEC_def
      MS_RDONLY_def MS_PRIVATE_def MS_REMOUNT_def)

lemma maskDirectory_calls:
  "snd (snd (maskDirectory os roEmptyDir target' isReadOnly hasContent accessible w)) =
     (if \<not> isReadOnly \<or> (hasContent \<and> accessible) then
        UnixMount roEmptyDir target' ''bind'' 0x100F [] #
        (if fst (unix_Mount os roEmptyDir target' ''bind'' 0x100F [] w) = None
            \<and> (case unix_Statfs os target'
                      (snd (unix_Mount os roEmptyDir target' ''bind'' 0x100F [] w)) of
                 Inl e \<Rightarrow> False
               | Inr fsFlags \<Rightarrow> fsFlags AND ST_RDONLY = 0)
         then [UnixMount target' target' [] 0x102F []]
         else [])
      else [])"
  by (auto simp: maskDirectory_def Let_def doMount_def mask_flag_values
        split: prod.splits option.splits sum.splits)

lemma maskedPath_directory:
  assumes "target' =
      (case filepath_EvalSymlinks os (filepath_Join os rootPath masked) w of
         Inl e \<Rightarrow> filepath_Join os rootPath masked
       | Inr resolved \<Rightarrow> resolved)"
    and "os_Stat os target' w = Inr targetinfo"
    and "fi_IsDir targetinfo"
    and "unix_Statfs os target' w = Inr statfsFlags"
    and "unix_Stat os target' w = Inr stat'"
    and "contentRead (os_Readdirnames os target' w) = Some hasContent"
  shows "maskedPath os rootPath gidMappings uidMappings roEmptyDir masked w =
           maskDirectory os roEmptyDir target' (statfsFlags AND MS_RDONLY \<noteq> 0) hasContent True w"
  using assms
  by (auto simp: maskedPath_def Let_def contentRead_def isPermission_def isAccessible_True
        hasContentNames_hasEntries split: readdir_result.splits if_splits)

lemma maskedPath_non_directory:
  assumes "target' =
      (case filepath_EvalSymlinks os (filepath_Join os rootPath masked) w of
         Inl e \<Rightarrow> filepath_Join os rootPath masked
       | Inr resolved \<Rightarrow> resolved)"
    and "os_Stat os target' w = Inr targetinfo"
    and "\<not> fi_IsDir targetinfo"
  shows "snd (snd (maskedPath os rootPath gidMappings uidMappings roEmptyDir masked w)) =
           (if nullDevice (unix_Stat os ''/dev/null'' w) targetinfo then []
            else [UnixMount ''/dev/null'' target' [] 0x41001 []])"
  using assms
  by (auto simp: maskedPath_def Let_def isDevNull_nullDevice doMount_def mask_flag_values
        split: prod.splits option.splits)

text \<open>
  Claim C5 does not hold of the code. For a masked path whose target exists, the loop
  body mounts as the decision table says only when every directory is taken as
  accessible, as \<open>isAccessible\<close> does. The rows, with the bits in the words of the
  specification: a directory gets no mount call when it is read-only and without
  content; otherwise it gets the empty directory mounted over it with the flags
  \<open>0x100F\<close> (bind, nosuid, nodev, noexec, read-only), and then the remount with the flags
  \<open>0x102F\<close> exactly when that mount succeeded and the file system does not report
  read-only afterwards. A target that is not a directory gets no mount call when it is
  the null device, and otherwise the null device bound over it with the flags
  \<open>0x41001\<close> (bind, read-only, private). The table of the claim differs on a directory
  that is read-only, has content and is not accessible by the rule of the
  specification: the table gives no mount there, and the code mounts the empty
  directory over it.
\<close>

theorem maskedPath_table_with_all_accessible:
  assumes target: "target' =
      (case filepath_EvalSymlinks os (filepath_Join os rootPath masked) w of
         Inl e \<Rightarrow> filepath_Join os rootPath masked
       | Inr resolved \<Rightarrow> resolved)"
    and info: "os_Stat os target' w = Inr targetinfo"
    and calls: "calls = snd (snd (maskedPath os rootPath gidMappings uidMappings roEmptyDir masked w))"
  shows "(fi_IsDir targetinfo \<and> unix_Statfs os target' w = Inr statfsFlags
            \<and> unix_Stat os target' w = Inr stat'
            \<and> contentRead (os_Readdirnames os target' w) = Some hasContent
          \<longrightarrow>
            (case maskingDecision True (statfsFlags AND MS_RDONLY \<noteq> 0) hasContent True False of
               NoMount \<Rightarrow> calls = []
             | OvermountEmptyDir \<Rightarrow>
                 calls =
                   UnixMount roEmptyDir target' ''bind'' 0x100F [] #
                   (if fst (unix_Mount os roEmptyDir target' ''bind'' 0x100F [] w) = None
                       \<and> (case unix_Statfs os target'
                                 (snd (unix_Mount os roEmptyDir target' ''bind'' 0x100F [] w)) of
                            Inl e \<Rightarrow> False
                          | Inr fsFlags \<Rightarrow> fsFlags AND ST_RDONLY = 0)
                    then [UnixMount target' target' [] 0x102F []]
                    else [])
             | BindDevNull \<Rightarrow> False)
            \<and> (statfsFlags AND MS_RDONLY \<noteq> 0 \<and> hasContent
                 \<and> \<not> isAccessible_spec stat' gidMappings uidMappings
               \<longrightarrow>
                 maskingDecision True (statfsFlags AND MS_RDONLY \<noteq> 0) hasContent
                   (isAccessible_spec stat' gidMappings uidMappings) False = NoMount
                 \<and> calls \<noteq> []
                 \<and> hd calls = UnixMount roEmptyDir target' ''bind'' 0x100F []))
       \<and> (\<not> fi_IsDir targetinfo
          \<longrightarrow>
            (case maskingDecision False False False False
                    (nullDevice (unix_Stat os ''/dev/null'' w) targetinfo) of
               NoMount \<Rightarrow> calls = []
             | OvermountEmptyDir \<Rightarrow> False
             | BindDevNull \<Rightarrow> calls = [UnixMount ''/dev/null'' target' [] 0x41001 []]))"
proof (intro conjI impI)
  assume dir: "fi_IsDir targetinfo \<and> unix_Statfs os target' w = Inr statfsFlags
            \<and> unix_Stat os target' w = Inr stat'
            \<and> contentRead (os_Readdirnames os target' w) = Some hasContent"
  let ?ro = "statfsFlags AND MS_RDONLY \<noteq> 0"
  from dir calls
  have c: "calls = snd (snd (maskDirectory os roEmptyDir target' ?ro hasContent True w))"
    using maskedPath_directory [OF target info, where statfsFlags = statfsFlags and stat' = stat'
        and hasContent = hasContent and gidMappings = gidMappings and uidMappings = uidMappings
        and roEmptyDir = roEmptyDir]
    by simp
  show "case maskingDecision True ?ro hasContent True False of
               NoMount \<Rightarrow> calls = []
             | OvermountEmptyDir \<Rightarrow>
                 calls =
                   UnixMount roEmptyDir target' ''bind'' 0x100F [] #
                   (if fst (unix_Mount os roEmptyDir target' ''bind'' 0x100F [] w) = None
                       \<and> (case unix_Statfs os target'
                                 (snd (unix_Mount os roEmptyDir target' ''bind'' 0x100F [] w)) of
                            Inl e \<Rightarrow> False
                          | Inr fsFlags \<Rightarrow> fsFlags AND ST_RDONLY = 0)
                    then [UnixMount target' target' [] 0x102F []]
                    else [])
             | BindDevNull \<Rightarrow> False"
    unfolding c maskDirectory_calls by (simp add: maskingDecision_def)
  assume bad: "statfsFlags AND MS_RDONLY \<noteq> 0 \<and> hasContent
                 \<and> \<not> isAccessible_spec stat' gidMappings uidMappings"
  then show "maskingDecision True ?ro hasContent
                   (isAccessible_spec stat' gidMappings uidMappings) False = NoMount"
    by (simp add: maskingDecision_def)
  from bad show "calls \<noteq> []"
    unfolding c maskDirectory_calls by simp
  from bad show "hd calls = UnixMount roEmptyDir target' ''bind'' 0x100F []"
    unfolding c maskDirectory_calls by simp
next
  assume nodir: "\<not> fi_IsDir targetinfo"
  from maskedPath_non_directory [OF target info nodir, of gidMappings uidMappings roEmptyDir] calls
  have c: "calls = (if nullDevice (unix_Stat os ''/dev/null'' w) targetinfo then []
            else [UnixMount ''/dev/null'' target' [] 0x41001 []])"
    by simp
  show "case maskingDecision False False False False
                    (nullDevice (unix_Stat os ''/dev/null'' w) targetinfo) of
               NoMount \<Rightarrow> calls = []
             | OvermountEmptyDir \<Rightarrow> False
             | BindDevNull \<Rightarrow> calls = [UnixMount ''/dev/null'' target' [] 0x41001 []]"
    unfolding c by (simp add: maskingDecision_def)
qed

lemma demo_masked_readonly_directory:
  "snd (snd (maskedPath demoOs ''/rootfs'' [] [] ''/bundle/empty'' ''/proc/acpi''
     [''/rootfs/proc/acpi''])) =
     [UnixMount ''/bundle/empty'' ''/rootfs/proc/acpi'' ''bind'' 0x100F []]"
  by (simp add: maskedPath_def maskDirectory_def doMount_def demoOs_def nullOs_def
      demoInfo_def Let_def mask_flag_values demo_flags isNotExist_def ST_RDONLY_def MS_RDONLY_def
      isAccessible_True)

theorem maskedPath_table_with_all_accessible_witness:
  "os_Stat demoOs ''/rootfs/proc/acpi'' [''/rootfs/proc/acpi''] = Inr (demoInfo ''/rootfs/proc/acpi'')
   \<and> fi_IsDir (demoInfo ''/rootfs/proc/acpi'')
   \<and> unix_Statfs demoOs ''/rootfs/proc/acpi'' [''/rootfs/proc/acpi''] = Inr ST_RDONLY
   \<and> unix_Stat demoOs ''/rootfs/proc/acpi'' [''/rootfs/proc/acpi'']
       = Inr (fi_Sys (demoInfo ''/rootfs/proc/acpi''))
   \<and> contentRead (os_Readdirnames demoOs ''/rootfs/proc/acpi'' [''/rootfs/proc/acpi'']) = Some True
   \<and> ST_RDONLY AND MS_RDONLY \<noteq> 0
   \<and> \<not> isAccessible_spec (fi_Sys (demoInfo ''/rootfs/proc/acpi'')) [] []
   \<and> maskingDecision True (ST_RDONLY AND MS_RDONLY \<noteq> 0) True
        (isAccessible_spec (fi_Sys (demoInfo ''/rootfs/proc/acpi'')) [] []) False = NoMount
   \<and> snd (snd (maskedPath demoOs ''/rootfs'' [] [] ''/bundle/empty'' ''/proc/acpi''
        [''/rootfs/proc/acpi'']))
       = [UnixMount ''/bundle/empty'' ''/rootfs/proc/acpi'' ''bind'' 0x100F []]
   \<and> os_Stat demoOs ''/rootfs/proc/null'' [] = Inr (demoInfo ''/rootfs/proc/null'')
   \<and> \<not> fi_IsDir (demoInfo ''/rootfs/proc/null'')
   \<and> nullDevice (unix_Stat demoOs ''/dev/null'' []) (demoInfo ''/rootfs/proc/null'')
   \<and> snd (snd (maskedPath demoOs ''/rootfs'' [] [] ''/bundle/empty'' ''/proc/null'' [])) = []"
proof -
  let ?w = "[''/rootfs/proc/acpi'']"
  let ?st = "fi_Sys (demoInfo ''/rootfs/proc/acpi'')"
  have t1: "''/rootfs/proc/acpi'' =
      (case filepath_EvalSymlinks demoOs (filepath_Join demoOs ''/rootfs'' ''/proc/acpi'') ?w of
         Inl e \<Rightarrow> filepath_Join demoOs ''/rootfs'' ''/proc/acpi''
       | Inr resolved \<Rightarrow> resolved)"
    and t2: "''/rootfs/proc/null'' =
      (case filepath_EvalSymlinks demoOs (filepath_Join demoOs ''/rootfs'' ''/proc/null'') [] of
         Inl e \<Rightarrow> filepath_Join demoOs ''/rootfs'' ''/proc/null''
       | Inr resolved \<Rightarrow> resolved)"
    by (simp_all add: demoOs_def nullOs_def)
  have i1: "os_Stat demoOs ''/rootfs/proc/acpi'' ?w = Inr (demoInfo ''/rootfs/proc/acpi'')"
    and i2: "os_Stat demoOs ''/rootfs/proc/null'' [] = Inr (demoInfo ''/rootfs/proc/null'')"
    by (simp_all add: demoOs_def nullOs_def)
  have d1: "fi_IsDir (demoInfo ''/rootfs/proc/acpi'')"
    and d2: "\<not> fi_IsDir (demoInfo ''/rootfs/proc/null'')"
    by (simp_all add: demoInfo_def)
  have s1: "unix_Statfs demoOs ''/rootfs/proc/acpi'' ?w = Inr ST_RDONLY"
    and u1: "unix_Stat demoOs ''/rootfs/proc/acpi'' ?w = Inr ?st"
    and c1: "contentRead (os_Readdirnames demoOs ''/rootfs/proc/acpi'' ?w) = Some True"
    by (simp_all add: demoOs_def nullOs_def contentRead_def hasEntries_def)
  have ro: "ST_RDONLY AND MS_RDONLY \<noteq> 0"
    by (simp add: ST_RDONLY_def MS_RDONLY_def)
  have na: "\<not> isAccessible_spec ?st [] []"
    by (simp add: isAccessible_spec_def demoInfo_def S_IROTH_def S_IXOTH_def S_IRGRP_def
        S_IXGRP_def S_IRUSR_def S_IXUSR_def)
  have n2: "nullDevice (unix_Stat demoOs ''/dev/null'' []) (demoInfo ''/rootfs/proc/null'')"
    by (simp add: nullDevice_def demoOs_def nullOs_def demoInfo_def)
  note run = demo_masked_readonly_directory
  from maskedPath_table_with_all_accessible [where gidMappings = "[]" and uidMappings = "[]"
      and roEmptyDir = "''/bundle/empty''" and statfsFlags = ST_RDONLY and stat' = ?st
      and hasContent = True, OF t1 i1 refl] d1 s1 u1 c1 ro na
  have m: "maskingDecision True (ST_RDONLY AND MS_RDONLY \<noteq> 0) True
             (isAccessible_spec ?st [] []) False = NoMount"
    by blast
  from maskedPath_table_with_all_accessible [where gidMappings = "[]" and uidMappings = "[]"
      and roEmptyDir = "''/bundle/empty''", OF t2 i2 refl] d2 n2
  have k: "snd (snd (maskedPath demoOs ''/rootfs'' [] [] ''/bundle/empty'' ''/proc/null'' [])) = []"
    by (simp add: maskingDecision_def)
  from i1 d1 s1 u1 c1 ro na m run i2 d2 n2 k show ?thesis by blast
qed

text \<open>
  Claim C3 does not hold of the code. The first test of line 829 is
  \<open>((stat.Mode & S_IROTH) | S_IXOTH) != 0\<close>, which holds of every mode, so the code
  finds every masked directory accessible, whatever its permission bits, owner, group
  and the mappings. The test of the claim differs: a directory of mode 0700 owned by
  user 0, with no mapping configured, is not accessible by the claim's rule.
\<close>

theorem isAccessible_always_true:
  "isAccessible stat' gidMappings uidMappings
   \<and> \<not> isAccessible_spec
         \<lparr>st_Dev = 1, st_Ino = 9, st_Mode = 0x41C0, st_Uid = 0, st_Gid = 0, st_Rdev = 0\<rparr> [] []"
proof
  show "isAccessible stat' gidMappings uidMappings"
    by (rule isAccessible_True)
  show "\<not> isAccessible_spec
         \<lparr>st_Dev = 1, st_Ino = 9, st_Mode = 0x41C0, st_Uid = 0, st_Gid = 0, st_Rdev = 0\<rparr> [] []"
    by (simp add: isAccessible_spec_def S_IROTH_def S_IXOTH_def S_IRGRP_def S_IXGRP_def
        S_IRUSR_def S_IXUSR_def)
qed

theorem isAccessible_always_true_witness:
  "isAccessible (fi_Sys (demoInfo ''/rootfs/proc/acpi'')) [] []
   \<and> \<not> isAccessible_spec (fi_Sys (demoInfo ''/rootfs/proc/acpi'')) [] []"
  using isAccessible_always_true [of "fi_Sys (demoInfo ''/rootfs/proc/acpi'')" "[]" "[]"]
  by (simp add: demoInfo_def)

end
